theory Spec2Isabelle
  imports Complex_Main
begin

section \<open>Python values the solver handles\<close>

text \<open>
  The exceptions that the methods of \<open>PetSolver\<close> can end with. Only
  \<open>NotImplementedError\<close> is raised by a \<open>raise\<close> statement of the module; the
  others come from the Python run time and from numpy (a reshape to a shape of another
  size, too many indices for an array, a missing dictionary key, an index out of range,
  a local variable read before its first assignment).
\<close>

datatype py_error =
  NotImplementedError | ValueError | IndexError | KeyError | UnboundLocalError

datatype 'r outcome = Raised py_error | Returned 'r

text \<open>
  Calls that leave the module: into PETSc (the distributed-array and communication
  library) and into numpy (the dense-array library).
\<close>

datatype lib_call =
  Call_globalToLocal | Call_getArray | Call_Vec | Call_createWithArray | Call_max |
  Call_reshape | Call_getitem

fun petsc_call :: "lib_call \<Rightarrow> bool" where
  "petsc_call Call_reshape = False"
| "petsc_call Call_getitem = False"
| "petsc_call _ = True"

text \<open>
  The result of running a method: the library calls it made, in order, how it ended,
  and the object it mutates as it is left behind (also when the method raised).
\<close>

record ('r, 's) run =
  calls :: "lib_call list"
  outcome :: "'r outcome"
  post :: 's

subsection \<open>numpy arrays\<close>

text \<open>
  A dense array is its shape and its elements in Fortran order (first index fastest),
  which is the layout of the buffer of a PETSc vector seen through
  \<open>reshape(..., order = 'F')\<close>.
\<close>

record 'a ndarray =
  shape :: "nat list"
  buf :: "'a list"

text \<open>The buffer of an array has as many elements as its shape says.\<close>

definition well_formed :: "'a ndarray \<Rightarrow> bool" where
  "well_formed a \<longleftrightarrow> length (buf a) = prod_list (shape a)"

fun offset_F :: "nat list \<Rightarrow> nat list \<Rightarrow> nat" where
  "offset_F (s # ss) (i # is) = i + s * offset_F ss is"
| "offset_F _ _ = 0"

definition nd_at :: "'a ndarray \<Rightarrow> nat list \<Rightarrow> 'a" where
  "nd_at a idx = buf a ! offset_F (shape a) idx"

text \<open>
  \<open>a.reshape(newshape, order = 'F')\<close> of a one-dimensional array \<open>a\<close>. numpy takes a
  negative entry of the new shape as the one unknown dimension and infers it; two of
  them, or a size that does not match, raise \<open>ValueError\<close>.
\<close>

definition reshape_F :: "'a list \<Rightarrow> int list \<Rightarrow> py_error + 'a ndarray" where
  "reshape_F a newshape =
     (let s_original = int (length a);
          s_known = prod_list (filter (\<lambda>d. 0 \<le> d) newshape)
      in if length (filter (\<lambda>d. d < 0) newshape) > 1 then Inl ValueError
         else if length (filter (\<lambda>d. d < 0) newshape) = 1 then
           (if s_known = 0 \<or> s_original mod s_known \<noteq> 0 then Inl ValueError
            else Inr \<lparr>shape = map (\<lambda>d. nat (if d < 0 then s_original div s_known else d)) newshape,
                      buf = a\<rparr>)
         else if s_original \<noteq> s_known then Inl ValueError
         else Inr \<lparr>shape = map nat newshape, buf = a\<rparr>)"

text \<open>
  A slice \<open>lo:hi\<close> (step 1); \<open>:\<close> is \<open>Slice None None\<close>. \<open>slice_indices n\<close> is
  Python's \<open>slice.indices(n)\<close>: a negative bound counts from the end, and both bounds
  are clipped to \<open>0..n\<close>. The pair is the half-open range of selected positions.
\<close>

datatype slice = Slice "int option" "int option"

fun slice_indices :: "nat \<Rightarrow> slice \<Rightarrow> nat \<times> nat" where
  "slice_indices n (Slice lo hi) =
     (let start = (case lo of None \<Rightarrow> 0
                   | Some a \<Rightarrow> if a < 0 then max (a + int n) 0 else min a (int n));
          stop = (case hi of None \<Rightarrow> int n
                  | Some b \<Rightarrow> if b < 0 then max (b + int n) 0 else min b (int n))
      in (nat start, nat (max start stop)))"

text \<open>
  The positions in the Fortran-ordered buffer of the elements that a tuple of ranges
  selects, listed in the Fortran order of the selection.
\<close>

fun offsets_F :: "nat list \<Rightarrow> (nat \<times> nat) list \<Rightarrow> nat list" where
  "offsets_F (s # ss) ((a, b) # rs) =
     concat (map (\<lambda>r. map (\<lambda>i. i + s * r) [a..<b]) (offsets_F ss rs))"
| "offsets_F _ _ = [0]"

text \<open>
  \<open>arr[key]\<close> for a tuple of slices: more slices than dimensions raise \<open>IndexError\<close>,
  missing ones are \<open>:\<close>.
\<close>

definition getitem :: "'a ndarray \<Rightarrow> slice list \<Rightarrow> py_error + 'a ndarray" where
  "getitem arr key =
     (if length key > length (shape arr) then Inl IndexError
      else
        let full = key @ replicate (length (shape arr) - length key) (Slice None None);
            ranges = map2 slice_indices (shape arr) full
        in Inr \<lparr>shape = map (\<lambda>(a, b). b - a) ranges,
                buf = map (\<lambda>k. buf arr ! k) (offsets_F (shape arr) ranges)\<rparr>)"

text \<open>\<open>xs[i]\<close> for a list and a non-negative literal index.\<close>

definition list_item :: "'a list \<Rightarrow> nat \<Rightarrow> py_error + 'a" where
  "list_item xs i = (if i < length xs then Inr (xs ! i) else Inl IndexError)"

section \<open>The objects of the framework\<close>

text \<open>
  The classes \<open>Grid\<close>, \<open>State\<close> and \<open>Solution\<close> and the base class of the solver are
  not part of this module; the records hold the attributes that the module reads and
  writes. A distributed array (\<open>q_da\<close>, \<open>aux_da\<close>) is its \<open>globalToLocal\<close> scatter:
  from the entries of the global and of the local vector on this process to the new
  entries of the local vector, ghost cells filled in.
\<close>

record Grid =
  ndim :: int
  ng :: "int list"

record 'a State =
  grid :: Grid
  meqn :: int
  maux :: int
  q_da :: "'a list \<Rightarrow> 'a list \<Rightarrow> 'a list"
  gqVec :: "'a list"
  lqVec :: "'a list"
  aux_da :: "'a list \<Rightarrow> 'a list \<Rightarrow> 'a list"
  gauxVec :: "'a list"
  lauxVec :: "'a list"
  q :: "'a ndarray"
  aux :: "'a ndarray option"
  aux_global :: "string \<rightharpoonup> real"
  t :: real

record 'a Solution =
  states :: "'a State list"

record 'a PetSolver =
  mbc :: int
  dt_variable :: bool
  cfl :: real
  time_integrator :: string
  rk_stages :: "'a State list"

section \<open>The methods of PetSolver\<close>

definition append_ghost_cells ::
  "'a PetSolver \<Rightarrow> 'a State \<Rightarrow> ('a ndarray, 'a State) run" where
  "append_ghost_cells self state =
     (let state1 = state\<lparr>lqVec := q_da state (gqVec state) (lqVec state)\<rparr>;
          q_dim = map (\<lambda>n. n + 2 * mbc self) (ng (grid state1));
          q_dim = meqn state1 # q_dim
      in case reshape_F (lqVec state1) q_dim of
           Inl e \<Rightarrow> \<lparr>calls = [Call_globalToLocal, Call_getArray, Call_reshape],
                      outcome = Raised e, post = state1\<rparr>
         | Inr ghosted_q \<Rightarrow> \<lparr>calls = [Call_globalToLocal, Call_getArray, Call_reshape],
                      outcome = Returned ghosted_q, post = state1\<rparr>)"

definition set_global_q ::
  "'a PetSolver \<Rightarrow> 'a State \<Rightarrow> 'a ndarray \<Rightarrow> (unit, 'a State) run" where
  "set_global_q self state ghosted_q =
     (if ndim (grid state) = 1 then
        (case getitem ghosted_q [Slice None None, Slice (Some (mbc self)) (Some (- mbc self))] of
           Inl e \<Rightarrow> \<lparr>calls = [Call_getitem], outcome = Raised e, post = state\<rparr>
         | Inr a \<Rightarrow> \<lparr>calls = [Call_getitem], outcome = Returned (),
                      post = state\<lparr>q := a\<rparr>\<rparr>)
      else if ndim (grid state) = 2 then
        (case list_item (ng (grid state)) 0 of
           Inl e \<Rightarrow> \<lparr>calls = [], outcome = Raised e, post = state\<rparr>
         | Inr mx \<Rightarrow>
        (case list_item (ng (grid state)) 1 of
           Inl e \<Rightarrow> \<lparr>calls = [], outcome = Raised e, post = state\<rparr>
         | Inr my \<Rightarrow>
        (case getitem ghosted_q [Slice None None,
                 Slice (Some (mbc self)) (Some (mx + mbc self)),
                 Slice (Some (mbc self)) (Some (my + mbc self))] of
           Inl e \<Rightarrow> \<lparr>calls = [Call_getitem], outcome = Raised e, post = state\<rparr>
         | Inr a \<Rightarrow> \<lparr>calls = [Call_getitem], outcome = Returned (),
                      post = state\<lparr>q := a\<rparr>\<rparr>)))
      else \<lparr>calls = [], outcome = Raised NotImplementedError, post = state\<rparr>)"

definition append_ghost_cells_to_aux ::
  "'a PetSolver \<Rightarrow> 'a State \<Rightarrow> ('a ndarray, 'a State) run" where
  "append_ghost_cells_to_aux self state =
     (let state1 = state\<lparr>lauxVec := aux_da state (gauxVec state) (lauxVec state)\<rparr>;
          aux_dim = map (\<lambda>n. n + 2 * mbc self) (ng (grid state1));
          aux_dim = maux state1 # aux_dim
      in case reshape_F (lauxVec state1) aux_dim of
           Inl e \<Rightarrow> \<lparr>calls = [Call_globalToLocal, Call_getArray, Call_reshape],
                      outcome = Raised e, post = state1\<rparr>
         | Inr ghosted_aux \<Rightarrow> \<lparr>calls = [Call_globalToLocal, Call_getArray, Call_reshape],
                      outcome = Returned ghosted_aux, post = state1\<rparr>)"

text \<open>
  \<open>PETSc.Vec().createWithArray([x])\<close> is a vector over all processes to which this
  process contributes the entry \<open>x\<close>; \<open>others\<close> are the entries of the other
  processes. Its \<open>max()\<close> is the pair of the position and the value of its largest
  entry, the same on every process.
\<close>

definition Vec_max :: "real \<Rightarrow> real list \<Rightarrow> nat \<times> real" where
  "Vec_max x others =
     (let m = fold max others x in (length (takeWhile (\<lambda>y. y \<noteq> m) (x # others)), m))"

definition communicateCFL ::
  "real list \<Rightarrow> 'a PetSolver \<Rightarrow> (unit, 'a PetSolver) run" where
  "communicateCFL others self =
     (if dt_variable self then
        \<lparr>calls = [Call_Vec, Call_createWithArray, Call_max], outcome = Returned (),
         post = self\<lparr>cfl := snd (Vec_max (cfl self) others)\<rparr>\<rparr>
      else \<lparr>calls = [], outcome = Returned (), post = self\<rparr>)"

text \<open>
  The class \<open>State\<close> is imported by \<open>allocate_rk_stages\<close> from another module: its
  constructor \<open>State(grid)\<close> and its method \<open>set_stencil_width(mbc)\<close> are parameters
  here.
\<close>

record 'a State_class =
  State_new :: "Grid \<Rightarrow> 'a State"
  set_stencil_width :: "int \<Rightarrow> 'a State \<Rightarrow> 'a State"

text \<open>
  \<open>xs[-1].attr = v\<close>: an update of the last element of a list (which the preceding
  \<open>append\<close> makes non-empty).
\<close>

definition set_last :: "('s \<Rightarrow> 's) \<Rightarrow> 's list \<Rightarrow> 's list" where
  "set_last f xs = xs[length xs - 1 := f (xs ! (length xs - 1))]"

definition rk_stage_step ::
  "'a State_class \<Rightarrow> 'a PetSolver \<Rightarrow> 'a State \<Rightarrow> 'a State list \<Rightarrow> 'a State list" where
  "rk_stage_step cls self state stages =
     (let s1 = stages @ [State_new cls (grid state)];
          s2 = set_last (\<lambda>r. r\<lparr>meqn := meqn state\<rparr>) s1;
          s3 = set_last (\<lambda>r. r\<lparr>maux := maux state\<rparr>) s2;
          s4 = set_last (set_stencil_width cls (mbc self)) s3;
          s5 = set_last (\<lambda>r. r\<lparr>aux_global := aux_global state\<rparr>) s4;
          s6 = set_last (\<lambda>r. r\<lparr>t := t state\<rparr>) s5
      in if maux state > 0 then set_last (\<lambda>r. r\<lparr>aux := aux state\<rparr>) s6 else s6)"

text \<open>\<open>for i in range(n): body\<close>, for a body that does not read \<open>i\<close>.\<close>

fun for_range :: "nat \<Rightarrow> ('s \<Rightarrow> 's) \<Rightarrow> 's \<Rightarrow> 's" where
  "for_range 0 body s = s"
| "for_range (Suc n) body s = for_range n body (body s)"

text \<open>
  The chain of \<open>if\<close> and \<open>elif\<close> that assigns \<open>nregisters\<close>; it has no \<open>else\<close>,
  and \<open>None\<close> is the local variable left unbound.
\<close>

definition nregisters_of :: "string \<Rightarrow> int option" where
  "nregisters_of ti =
     (if ti = ''Euler'' then Some 1
      else if ti = ''SSP33'' then Some 2
      else if ti = ''SSP104'' then Some 3
      else None)"

definition allocate_rk_stages ::
  "'a State_class \<Rightarrow> 'a PetSolver \<Rightarrow> (string \<rightharpoonup> 'a Solution) \<Rightarrow>
   unit outcome \<times> 'a PetSolver" where
  "allocate_rk_stages cls self solutions =
     (case solutions ''n'' of
        None \<Rightarrow> (Raised KeyError, self)
      | Some sol \<Rightarrow>
     (case list_item (states sol) 0 of
        Inl e \<Rightarrow> (Raised e, self)
      | Inr state \<Rightarrow>
     (let self1 = self\<lparr>rk_stages := []\<rparr> in
      case nregisters_of (time_integrator self) of
        None \<Rightarrow> (Raised UnboundLocalError, self1)
      | Some nregisters \<Rightarrow>
          (Returned (),
           self1\<lparr>rk_stages :=
             for_range (nat (nregisters - 1)) (rk_stage_step cls self state)
               (rk_stages self1)\<rparr>))))"

text \<open>
  The expression \<open>set_global_q(state, append_ghost_cells(state))\<close>: the argument is
  evaluated first, and \<open>set_global_q\<close> then runs on the state that
  \<open>append_ghost_cells\<close> has left.
\<close>

definition set_global_q_of_append_ghost_cells ::
  "'a PetSolver \<Rightarrow> 'a State \<Rightarrow> (unit, 'a State) run" where
  "set_global_q_of_append_ghost_cells self state =
     (let r = append_ghost_cells self state in
      case outcome r of
        Raised e \<Rightarrow> \<lparr>calls = calls r, outcome = Raised e, post = post r\<rparr>
      | Returned ghosted_q \<Rightarrow>
          (let r2 = set_global_q self (post r) ghosted_q
           in \<lparr>calls = calls r @ calls r2, outcome = outcome r2, post = post r2\<rparr>))"

section \<open>Example inputs\<close>

text \<open>
  A solver with one ghost cell, and states on a 1D grid of two cells with two
  equations, on a 2D grid of two by one cells, and on a 3D grid. The scatter of the 1D
  state puts the ghost values 7 and 9 around the global entries.
\<close>

definition ex_solver :: "int PetSolver" where
  "ex_solver = \<lparr>mbc = 1, dt_variable = True, cfl = 1 / 2, time_integrator = ''SSP33'',
     rk_stages = []\<rparr>"

definition ex_state_1d :: "int State" where
  "ex_state_1d = \<lparr>grid = \<lparr>ndim = 1, ng = [2]\<rparr>, meqn = 2, maux = 1,
     q_da = (\<lambda>g l. [7, 7] @ g @ [9, 9]), gqVec = [1, 2, 3, 4],
     lqVec = [0, 0, 0, 0, 0, 0, 0, 0],
     aux_da = (\<lambda>g l. l), gauxVec = [5, 6], lauxVec = [5, 5, 6, 6],
     q = \<lparr>shape = [2, 2], buf = [1, 2, 3, 4]\<rparr>, aux = None,
     aux_global = Map.empty, t = 0\<rparr>"

definition ex_state_2d :: "int State" where
  "ex_state_2d = \<lparr>grid = \<lparr>ndim = 2, ng = [2, 1]\<rparr>, meqn = 1, maux = 1,
     q_da = (\<lambda>g l. l), gqVec = [5, 6],
     lqVec = [0, 1, 2, 3, 4, 5, 6, 7, 8, 9, 10, 11],
     aux_da = (\<lambda>g l. l), gauxVec = [1, 1],
     lauxVec = [1, 1, 1, 1, 1, 1, 1, 1, 1, 1, 1, 1],
     q = \<lparr>shape = [1, 2, 1], buf = [5, 6]\<rparr>, aux = None,
     aux_global = Map.empty, t = 0\<rparr>"

definition ex_state_3d :: "int State" where
  "ex_state_3d = ex_state_1d\<lparr>grid := \<lparr>ndim = 3, ng = [1, 1, 1]\<rparr>\<rparr>"

definition ex_ghosted_1d :: "int ndarray" where
  "ex_ghosted_1d = \<lparr>shape = [2, 4], buf = [7, 7, 1, 2, 3, 4, 9, 9]\<rparr>"

definition ex_ghosted_long :: "int ndarray" where
  "ex_ghosted_long = \<lparr>shape = [2, 6], buf = [0, 1, 2, 3, 4, 5, 6, 7, 8, 9, 10, 11]\<rparr>"

definition ex_ghosted_2d :: "int ndarray" where
  "ex_ghosted_2d = \<lparr>shape = [1, 4, 3], buf = [0, 1, 2, 3, 4, 5, 6, 7, 8, 9, 10, 11]\<rparr>"

definition ex_ghosted_wide :: "int ndarray" where
  "ex_ghosted_wide = \<lparr>shape = [1, 6, 3],
     buf = [0, 1, 2, 3, 4, 5, 6, 7, 8, 9, 10, 11, 12, 13, 14, 15, 16, 17]\<rparr>"

text \<open>
  A \<open>State\<close> class whose constructor gives a state without equations on the grid and
  whose \<open>set_stencil_width\<close> keeps every attribute, and the solutions of a run whose
  current solution has the 1D example state.
\<close>

definition ex_State_class :: "int State_class" where
  "ex_State_class = \<lparr>State_new = (\<lambda>g. ex_state_1d\<lparr>grid := g, meqn := 0, maux := 0, t := 7\<rparr>),
     set_stencil_width = (\<lambda>w s. s)\<rparr>"

definition ex_solutions :: "string \<rightharpoonup> int Solution" where
  "ex_solutions = [''n'' \<mapsto> \<lparr>states = [ex_state_1d]\<rparr>]"

section \<open>Facts about the array model\<close>

lemma nth_concat_blocks:
  "\<forall>x\<in>set xs. length (f x) = n \<Longrightarrow> i < n \<Longrightarrow> k < length xs \<Longrightarrow>
   concat (map f xs) ! (i + n * k) = f (xs ! k) ! i"
proof (induction xs arbitrary: k)
  case Nil
  then show ?case by simp
next
  case (Cons x xs)
  show ?case
  proof (cases k)
    case 0
    with Cons.prems show ?thesis by (simp add: nth_append)
  next
    case (Suc j)
    have "concat (map f (x # xs)) ! (i + n * k) = concat (map f xs) ! (i + n * j)"
      using Cons.prems Suc by (simp add: nth_append)
    also have "\<dots> = f (xs ! j) ! i"
      using Cons.prems Suc by (intro Cons.IH) auto
    finally show ?thesis using Suc by simp
  qed
qed

lemma length_concat_blocks:
  "\<forall>x\<in>set xs. length (f x) = n \<Longrightarrow> length (concat (map f xs)) = n * length xs"
  by (induction xs) auto

lemma length_offsets_F:
  "length ss = length rs \<Longrightarrow>
   length (offsets_F ss rs) = prod_list (map (\<lambda>(a, b). b - a) rs)"
proof (induction ss rs rule: list_induct2)
  case Nil
  then show ?case by simp
next
  case (Cons s ss r rs)
  obtain a b where r: "r = (a, b)" by (cases r)
  have "length (offsets_F (s # ss) (r # rs)) = (b - a) * length (offsets_F ss rs)"
    unfolding r offsets_F.simps by (rule length_concat_blocks) simp
  with Cons.IH show ?case by (simp add: r)
qed

lemma offset_F_less:
  "list_all2 (<) idx sh \<Longrightarrow> offset_F sh idx < prod_list sh"
proof (induction idx sh rule: list_all2_induct)
  case Nil
  then show ?case by simp
next
  case (Cons i idx s sh)
  have "i + s * offset_F sh idx < s + s * offset_F sh idx" using Cons.hyps by simp
  also have "\<dots> = s * Suc (offset_F sh idx)" by simp
  also have "\<dots> \<le> s * prod_list sh" using Cons.IH by (intro mult_le_mono2) simp
  finally show ?case by simp
qed

text \<open>
  The element of a selection at a multi-index is the element of the array at that
  multi-index shifted by the starts of the ranges.
\<close>

lemma nth_offsets_F:
  "length ss = length rs \<Longrightarrow> list_all2 (\<lambda>i (a, b). i < b - a) idx rs \<Longrightarrow>
   offsets_F ss rs ! offset_F (map (\<lambda>(a, b). b - a) rs) idx =
   offset_F ss (map2 (\<lambda>i (a, b). i + a) idx rs)"
proof (induction ss rs arbitrary: idx rule: list_induct2)
  case Nil
  then show ?case by simp
next
  case (Cons s ss r rs)
  obtain a b where r: "r = (a, b)" by (cases r)
  from Cons.prems obtain i idx' where idx: "idx = i # idx'" and i: "i < b - a"
    and rest: "list_all2 (\<lambda>i (a, b). i < b - a) idx' rs"
    by (auto simp: list_all2_Cons2 r)
  let ?sh = "map (\<lambda>(a, b). b - a) rs"
  have lt: "offset_F ?sh idx' < length (offsets_F ss rs)"
  proof -
    have "list_all2 (<) idx' ?sh" using rest by (simp add: list_all2_map2 case_prod_unfold)
    then have "offset_F ?sh idx' < prod_list ?sh" by (rule offset_F_less)
    then show ?thesis using Cons.hyps by (simp add: length_offsets_F)
  qed
  have "offsets_F (s # ss) (r # rs) ! offset_F (map (\<lambda>(a, b). b - a) (r # rs)) idx
      = concat (map (\<lambda>r. map (\<lambda>i. i + s * r) [a..<b]) (offsets_F ss rs))
          ! (i + (b - a) * offset_F ?sh idx')"
    by (simp add: r idx)
  also have "\<dots> = map (\<lambda>i. i + s * (offsets_F ss rs ! offset_F ?sh idx')) [a..<b] ! i"
    using i lt by (intro nth_concat_blocks) auto
  also have "\<dots> = (a + i) + s * (offsets_F ss rs ! offset_F ?sh idx')"
    using i by simp
  also have "offsets_F ss rs ! offset_F ?sh idx'
      = offset_F ss (map2 (\<lambda>i (a, b). i + a) idx' rs)"
    using rest by (rule Cons.IH)
  finally show ?case by (simp add: r idx add.commute)
qed

lemma nd_at_selection:
  assumes "length ss = length rs" and "list_all2 (\<lambda>i (a, b). i < b - a) idx rs"
  shows "nd_at \<lparr>shape = map (\<lambda>(a, b). b - a) rs,
                buf = map (\<lambda>k. xs ! k) (offsets_F ss rs)\<rparr> idx
         = xs ! offset_F ss (map2 (\<lambda>i (a, b). i + a) idx rs)"
proof -
  let ?sh = "map (\<lambda>(a, b). b - a) rs"
  have "list_all2 (<) idx ?sh"
    using assms(2) by (simp add: list_all2_map2 case_prod_unfold)
  then have "offset_F ?sh idx < prod_list ?sh" by (rule offset_F_less)
  then have "offset_F ?sh idx < length (offsets_F ss rs)"
    using assms(1) by (simp add: length_offsets_F)
  then show ?thesis
    using nth_offsets_F [OF assms] by (simp add: nd_at_def)
qed

lemma slice_indices_full: "slice_indices n (Slice None None) = (0, n)"
  by simp

lemma getitem_2:
  "shape g = [m, N] \<Longrightarrow>
   getitem g [Slice None None, sl] =
   Inr \<lparr>shape = [m, snd (slice_indices N sl) - fst (slice_indices N sl)],
        buf = map (\<lambda>k. buf g ! k) (offsets_F [m, N] [(0, m), slice_indices N sl])\<rparr>"
  by (simp add: getitem_def Let_def case_prod_unfold slice_indices_full
      del: slice_indices.simps offsets_F.simps)

lemma getitem_3:
  "shape g = [m, N1, N2] \<Longrightarrow>
   getitem g [Slice None None, sl1, sl2] =
   Inr \<lparr>shape = [m, snd (slice_indices N1 sl1) - fst (slice_indices N1 sl1),
                 snd (slice_indices N2 sl2) - fst (slice_indices N2 sl2)],
        buf = map (\<lambda>k. buf g ! k)
                (offsets_F [m, N1, N2] [(0, m), slice_indices N1 sl1, slice_indices N2 sl2])\<rparr>"
  by (simp add: getitem_def Let_def case_prod_unfold slice_indices_full
      del: slice_indices.simps offsets_F.simps)

lemma getitem_error: "getitem g key = Inl e \<Longrightarrow> e = IndexError"
  by (simp add: getitem_def Let_def split: if_splits)

lemma list_item_error: "list_item xs i = Inl e \<Longrightarrow> e = IndexError"
  by (simp add: list_item_def split: if_splits)

lemma reshape_F_error: "reshape_F a dims = Inl e \<Longrightarrow> e = ValueError"
  by (simp add: reshape_F_def Let_def split: if_splits)

lemma prod_list_positive:
  "(\<And>x. x \<in> set xs \<Longrightarrow> 0 < (x :: int)) \<Longrightarrow> 0 < prod_list xs"
  by (induction xs) simp_all

lemma reshape_F_fits:
  "\<forall>d\<in>set dims. 0 \<le> d \<Longrightarrow> int (length a) = prod_list dims \<Longrightarrow>
   reshape_F a dims = Inr \<lparr>shape = map nat dims, buf = a\<rparr>"
proof -
  assume nonneg: "\<forall>d\<in>set dims. 0 \<le> d" and len: "int (length a) = prod_list dims"
  have "filter (\<lambda>d. d < 0) dims = []" using nonneg by (auto simp: filter_empty_conv)
  moreover have "filter (\<lambda>d. 0 \<le> d) dims = dims" using nonneg by (simp add: filter_id_conv)
  ultimately show ?thesis using len by (simp add: reshape_F_def Let_def)
qed

lemma offsets_F_whole_step:
  "concat (map (\<lambda>r. map (\<lambda>i. i + s * r) [0..<s]) [0..<p]) = [0..<s * p]"
proof (rule nth_equalityI)
  show len: "length (concat (map (\<lambda>r. map (\<lambda>i. i + s * r) [0..<s]) [0..<p]))
      = length [0..<s * p]"
    by (simp add: length_concat_blocks [where n = s])
  fix k assume "k < length (concat (map (\<lambda>r. map (\<lambda>i. i + s * r) [0..<s]) [0..<p]))"
  then have k: "k < s * p" using len by simp
  then have s: "0 < s" by (cases s) auto
  have kd: "k div s < p" using k s by (simp add: less_mult_imp_div_less mult.commute)
  have km: "k mod s < s" using s by simp
  have "concat (map (\<lambda>r. map (\<lambda>i. i + s * r) [0..<s]) [0..<p]) ! (k mod s + s * (k div s))
        = map (\<lambda>i. i + s * ([0..<p] ! (k div s))) [0..<s] ! (k mod s)"
    using km kd by (intro nth_concat_blocks) auto
  also have "\<dots> = k mod s + s * (k div s)" using km kd by simp
  finally show "concat (map (\<lambda>r. map (\<lambda>i. i + s * r) [0..<s]) [0..<p]) ! k = [0..<s * p] ! k"
    using k by simp
qed

text \<open>Selecting every position of every dimension selects the buffer as it is.\<close>

lemma offsets_F_whole:
  "offsets_F ss (map (\<lambda>s. (0, s)) ss) = [0..<prod_list ss]"
  by (induction ss) (simp_all add: offsets_F_whole_step)

lemma ndarray_whole:
  "length (buf g) = prod_list (shape g) \<Longrightarrow>
   \<lparr>shape = shape g, buf = map (\<lambda>k. buf g ! k) [0..<prod_list (shape g)]\<rparr> = g"
proof -
  assume "length (buf g) = prod_list (shape g)"
  then have "map (\<lambda>k. buf g ! k) [0..<prod_list (shape g)] = buf g"
    using map_nth [of "buf g"] by simp
  then show ?thesis by simp
qed

lemma extents_full:
  "map ((\<lambda>(a, b). b - a) \<circ> (\<lambda>(s, sl). slice_indices s sl))
     (zip ss (replicate (length ss) (Slice None None))) = ss"
  by (induction ss) simp_all

text \<open>An empty range in the second dimension selects nothing.\<close>

lemma getitem_empty_axis:
  assumes "shape g = m # N # rest"
  shows "getitem g [Slice None None, Slice (Some 0) (Some 0)] =
         Inr \<lparr>shape = m # 0 # rest, buf = []\<rparr>"
  using assms by (simp add: getitem_def Let_def extents_full)

text \<open>
  The arrays that the model builds are well formed, and a selection reads the buffer
  of a well-formed array within its bounds.
\<close>

lemma slice_indices_bounds:
  "fst (slice_indices n sl) \<le> snd (slice_indices n sl) \<and> snd (slice_indices n sl) \<le> n"
  by (cases sl) (auto simp: Let_def max_def min_def split: option.splits)

lemma offsets_F_bound:
  "list_all2 (\<lambda>s (a, b). b \<le> s) ss rs \<Longrightarrow> k \<in> set (offsets_F ss rs) \<Longrightarrow>
   k < prod_list ss"
proof (induction ss rs arbitrary: k rule: list_all2_induct)
  case Nil
  then show ?case by simp
next
  case (Cons s ss r rs)
  obtain a b where r: "r = (a, b)" by (cases r)
  from Cons.prems obtain j where j: "j \<in> set (offsets_F ss rs)" and k: "k < b + s * j"
    by (auto simp: r)
  have "j < prod_list ss" using j by (rule Cons.IH)
  then have "s * Suc j \<le> s * prod_list ss" by (intro mult_le_mono2) simp
  moreover have "b \<le> s" using Cons.hyps by (simp add: r)
  ultimately show ?case using k by simp
qed

lemma getitem_well_formed: "getitem arr key = Inr r \<Longrightarrow> well_formed r"
  by (auto simp: getitem_def Let_def well_formed_def length_offsets_F split: if_splits)

lemma getitem_elements:
  assumes "well_formed arr" and "getitem arr key = Inr r"
  shows "set (buf r) \<subseteq> set (buf arr)"
proof -
  let ?full = "key @ replicate (length (shape arr) - length key) (Slice None None)"
  let ?rs = "map2 slice_indices (shape arr) ?full"
  from assms(2) have len: "length key \<le> length (shape arr)"
    and r: "buf r = map (\<lambda>k. buf arr ! k) (offsets_F (shape arr) ?rs)"
    by (auto simp: getitem_def Let_def split: if_splits)
  have "list_all2 (\<lambda>s (a, b). b \<le> s) (shape arr) ?rs"
    using len slice_indices_bounds
    by (auto simp: list_all2_conv_all_nth case_prod_unfold)
  then have "k < length (buf arr)" if "k \<in> set (offsets_F (shape arr) ?rs)" for k
    using offsets_F_bound that assms(1) by (fastforce simp: well_formed_def)
  then show ?thesis by (auto simp: r)
qed

lemma prod_list_inferred:
  "0 \<le> Q \<Longrightarrow>
   int (prod_list (map (\<lambda>d. nat (if d < 0 then Q else d)) dims)) =
   prod_list (filter (\<lambda>d. 0 \<le> d) dims) * Q ^ length (filter (\<lambda>d. d < 0) dims)"
  by (induction dims) (auto simp: algebra_simps)

lemma reshape_F_well_formed: "reshape_F a dims = Inr r \<Longrightarrow> well_formed r"
proof -
  assume run: "reshape_F a dims = Inr r"
  let ?K = "prod_list (filter (\<lambda>d. 0 \<le> d) dims)"
  let ?L = "int (length a)"
  show ?thesis
  proof (cases "length (filter (\<lambda>d. d < 0) dims) = 1")
    case True
    with run have K: "?K \<noteq> 0" "?L mod ?K = 0"
      and r: "r = \<lparr>shape = map (\<lambda>d. nat (if d < 0 then ?L div ?K else d)) dims, buf = a\<rparr>"
      by (auto simp: reshape_F_def Let_def split: if_splits)
    have "0 \<le> ?K" by (rule prod_list_nonneg) simp
    with K have "0 < ?K" by simp
    then have "0 \<le> ?L div ?K" by (simp add: pos_imp_zdiv_nonneg_iff)
    then have "int (prod_list (shape r)) = ?K * (?L div ?K)"
      using prod_list_inferred [of "?L div ?K" dims] True by (simp add: r)
    also have "\<dots> = ?L" using K by auto
    finally show ?thesis by (simp add: well_formed_def r)
  next
    case False
    with run have few: "\<not> 1 < length (filter (\<lambda>d. d < 0) dims)" and L: "?L = ?K"
      and r: "r = \<lparr>shape = map nat dims, buf = a\<rparr>"
      by (auto simp: reshape_F_def Let_def split: if_splits)
    from few False have "length (filter (\<lambda>d. d < 0) dims) = 0" by arith
    then have none: "filter (\<lambda>d. d < 0) dims = []" by (simp only: length_0_conv)
    from none have all: "\<forall>d\<in>set dims. 0 \<le> d" by (auto simp: filter_empty_conv)
    then have "filter (\<lambda>d. 0 \<le> d) dims = dims" by (simp add: filter_id_conv)
    moreover have "int (prod_list (map nat dims)) = prod_list dims"
      using all by (induction dims) auto
    ultimately show ?thesis using L by (simp add: well_formed_def r)
  qed
qed

section \<open>The branches of the methods\<close>

lemma set_global_q_1d_ok:
  "ndim (grid state) = 1 \<Longrightarrow>
   getitem ghosted_q [Slice None None, Slice (Some (mbc self)) (Some (- mbc self))] = Inr a \<Longrightarrow>
   set_global_q self state ghosted_q =
   \<lparr>calls = [Call_getitem], outcome = Returned (), post = state\<lparr>q := a\<rparr>\<rparr>"
  by (simp add: set_global_q_def)

lemma set_global_q_1d_raise:
  "ndim (grid state) = 1 \<Longrightarrow>
   getitem ghosted_q [Slice None None, Slice (Some (mbc self)) (Some (- mbc self))] = Inl e \<Longrightarrow>
   set_global_q self state ghosted_q =
   \<lparr>calls = [Call_getitem], outcome = Raised e, post = state\<rparr>"
  by (simp add: set_global_q_def)

lemma set_global_q_2d_ok:
  "ndim (grid state) = 2 \<Longrightarrow> list_item (ng (grid state)) 0 = Inr mx \<Longrightarrow>
   list_item (ng (grid state)) 1 = Inr my \<Longrightarrow>
   getitem ghosted_q [Slice None None, Slice (Some (mbc self)) (Some (mx + mbc self)),
     Slice (Some (mbc self)) (Some (my + mbc self))] = Inr a \<Longrightarrow>
   set_global_q self state ghosted_q =
   \<lparr>calls = [Call_getitem], outcome = Returned (), post = state\<lparr>q := a\<rparr>\<rparr>"
  by (simp add: set_global_q_def)

lemma set_global_q_2d_raise:
  "ndim (grid state) = 2 \<Longrightarrow> list_item (ng (grid state)) 0 = Inr mx \<Longrightarrow>
   list_item (ng (grid state)) 1 = Inr my \<Longrightarrow>
   getitem ghosted_q [Slice None None, Slice (Some (mbc self)) (Some (mx + mbc self)),
     Slice (Some (mbc self)) (Some (my + mbc self))] = Inl e \<Longrightarrow>
   set_global_q self state ghosted_q =
   \<lparr>calls = [Call_getitem], outcome = Raised e, post = state\<rparr>"
  by (simp add: set_global_q_def)

lemma set_global_q_2d_raise_mx:
  "ndim (grid state) = 2 \<Longrightarrow> list_item (ng (grid state)) 0 = Inl e \<Longrightarrow>
   set_global_q self state ghosted_q = \<lparr>calls = [], outcome = Raised e, post = state\<rparr>"
  by (simp add: set_global_q_def)

lemma set_global_q_2d_raise_my:
  "ndim (grid state) = 2 \<Longrightarrow> list_item (ng (grid state)) 0 = Inr mx \<Longrightarrow>
   list_item (ng (grid state)) 1 = Inl e \<Longrightarrow>
   set_global_q self state ghosted_q = \<lparr>calls = [], outcome = Raised e, post = state\<rparr>"
  by (simp add: set_global_q_def)

lemma set_global_q_3d:
  "ndim (grid state) \<noteq> 1 \<Longrightarrow> ndim (grid state) \<noteq> 2 \<Longrightarrow>
   set_global_q self state ghosted_q =
   \<lparr>calls = [], outcome = Raised NotImplementedError, post = state\<rparr>"
  by (simp add: set_global_q_def)

lemma append_ghost_cells_ok:
  "reshape_F (q_da state (gqVec state) (lqVec state))
     (meqn state # map (\<lambda>n. n + 2 * mbc self) (ng (grid state))) = Inr g \<Longrightarrow>
   append_ghost_cells self state =
   \<lparr>calls = [Call_globalToLocal, Call_getArray, Call_reshape], outcome = Returned g,
    post = state\<lparr>lqVec := q_da state (gqVec state) (lqVec state)\<rparr>\<rparr>"
  by (simp add: append_ghost_cells_def Let_def)

lemma append_ghost_cells_raise:
  "reshape_F (q_da state (gqVec state) (lqVec state))
     (meqn state # map (\<lambda>n. n + 2 * mbc self) (ng (grid state))) = Inl e \<Longrightarrow>
   append_ghost_cells self state =
   \<lparr>calls = [Call_globalToLocal, Call_getArray, Call_reshape], outcome = Raised e,
    post = state\<lparr>lqVec := q_da state (gqVec state) (lqVec state)\<rparr>\<rparr>"
  by (simp add: append_ghost_cells_def Let_def)

lemma append_ghost_cells_to_aux_ok:
  "reshape_F (aux_da state (gauxVec state) (lauxVec state))
     (maux state # map (\<lambda>n. n + 2 * mbc self) (ng (grid state))) = Inr g \<Longrightarrow>
   append_ghost_cells_to_aux self state =
   \<lparr>calls = [Call_globalToLocal, Call_getArray, Call_reshape], outcome = Returned g,
    post = state\<lparr>lauxVec := aux_da state (gauxVec state) (lauxVec state)\<rparr>\<rparr>"
  by (simp add: append_ghost_cells_to_aux_def Let_def)

lemma append_ghost_cells_to_aux_raise:
  "reshape_F (aux_da state (gauxVec state) (lauxVec state))
     (maux state # map (\<lambda>n. n + 2 * mbc self) (ng (grid state))) = Inl e \<Longrightarrow>
   append_ghost_cells_to_aux self state =
   \<lparr>calls = [Call_globalToLocal, Call_getArray, Call_reshape], outcome = Raised e,
    post = state\<lparr>lauxVec := aux_da state (gauxVec state) (lauxVec state)\<rparr>\<rparr>"
  by (simp add: append_ghost_cells_to_aux_def Let_def)

lemma set_global_q_calls:
  "calls (set_global_q self state ghosted_q) = [] \<or>
   calls (set_global_q self state ghosted_q) = [Call_getitem]"
proof (cases "ndim (grid state) = 1")
  case True
  then show ?thesis
    by (cases "getitem ghosted_q
          [Slice None None, Slice (Some (mbc self)) (Some (- mbc self))]")
       (simp_all add: set_global_q_1d_raise set_global_q_1d_ok)
next
  case not1: False
  show ?thesis
  proof (cases "ndim (grid state) = 2")
    case False
    with not1 show ?thesis by (simp add: set_global_q_3d)
  next
    case True
    show ?thesis
    proof (cases "list_item (ng (grid state)) 0")
      case (Inl e)
      with True show ?thesis by (simp add: set_global_q_2d_raise_mx)
    next
      case mx: (Inr mx)
      show ?thesis
      proof (cases "list_item (ng (grid state)) 1")
        case (Inl e)
        with True mx show ?thesis by (simp add: set_global_q_2d_raise_my)
      next
        case my: (Inr my)
        with True mx show ?thesis
          by (cases "getitem ghosted_q [Slice None None,
                Slice (Some (mbc self)) (Some (mx + mbc self)),
                Slice (Some (mbc self)) (Some (my + mbc self))]")
             (simp_all add: set_global_q_2d_raise set_global_q_2d_ok)
      qed
    qed
  qed
qed

lemma append_ghost_cells_well_formed:
  "outcome (append_ghost_cells self state) = Returned g \<Longrightarrow> well_formed g"
proof (cases "reshape_F (q_da state (gqVec state) (lqVec state))
     (meqn state # map (\<lambda>n. n + 2 * mbc self) (ng (grid state)))")
  case (Inl e)
  assume "outcome (append_ghost_cells self state) = Returned g"
  with Inl show ?thesis by (simp add: append_ghost_cells_raise)
next
  case (Inr g')
  assume "outcome (append_ghost_cells self state) = Returned g"
  with Inr have "g' = g" by (simp add: append_ghost_cells_ok)
  with Inr show ?thesis by (simp add: reshape_F_well_formed)
qed

section \<open>What \<open>set_global_q\<close> keeps of an array\<close>

lemma nd_at_selection_2:
  assumes "w = b - a" and "e < m" and "i < w"
  shows "nd_at \<lparr>shape = [m, w],
                buf = map (\<lambda>k. xs ! k) (offsets_F [m, N] [(0, m), (a, b)])\<rparr> [e, i]
         = xs ! (e + m * (i + a))"
  using nd_at_selection [of "[m, N]" "[(0, m), (a, b)]" "[e, i]" xs] assms by simp

lemma nd_at_selection_3:
  assumes "w1 = b1 - a1" and "w2 = b2 - a2" and "e < m" and "i < w1" and "j < w2"
  shows "nd_at \<lparr>shape = [m, w1, w2],
                buf = map (\<lambda>k. xs ! k)
                  (offsets_F [m, N1, N2] [(0, m), (a1, b1), (a2, b2)])\<rparr> [e, i, j]
         = xs ! (e + m * (i + a1 + N1 * (j + a2)))"
  using nd_at_selection [of "[m, N1, N2]" "[(0, m), (a1, b1), (a2, b2)]" "[e, i, j]" xs] assms
  by simp

lemma slice_indices_margins:
  "1 \<le> c \<Longrightarrow> 2 * c \<le> int N \<Longrightarrow>
   slice_indices N (Slice (Some c) (Some (- c))) = (nat c, N - nat c)"
  by (simp add: Let_def max_def min_def)

lemma slice_indices_window:
  "0 \<le> c \<Longrightarrow> 0 \<le> n \<Longrightarrow> n + c \<le> int N \<Longrightarrow>
   slice_indices N (Slice (Some c) (Some (n + c))) = (nat c, nat c + nat n)"
  by (simp add: Let_def max_def min_def nat_add_distrib) 

text \<open>
  One dimension: of an array with \<open>N\<close> cells, \<open>N\<close> at least twice the positive
  \<open>mbc\<close>, the cells \<open>mbc\<close> up to \<open>N - mbc\<close> are kept.
\<close>

lemma set_global_q_1d_keeps:
  assumes "ndim (grid state) = 1" and "shape g = [m, N]"
    and "1 \<le> mbc self" and "2 * mbc self \<le> int N"
  shows "set_global_q self state g =
         \<lparr>calls = [Call_getitem], outcome = Returned (),
          post = state\<lparr>q := \<lparr>shape = [m, N - nat (mbc self) - nat (mbc self)],
            buf = map (\<lambda>k. buf g ! k)
              (offsets_F [m, N] [(0, m), (nat (mbc self), N - nat (mbc self))])\<rparr>\<rparr>\<rparr>"
proof -
  have "getitem g [Slice None None, Slice (Some (mbc self)) (Some (- mbc self))] =
        Inr \<lparr>shape = [m, N - nat (mbc self) - nat (mbc self)],
             buf = map (\<lambda>k. buf g ! k)
               (offsets_F [m, N] [(0, m), (nat (mbc self), N - nat (mbc self))])\<rparr>"
    using assms(3,4) by (simp add: getitem_2 [OF assms(2)] slice_indices_margins
        del: slice_indices.simps offsets_F.simps)
  with assms(1) show ?thesis by (rule set_global_q_1d_ok)
qed

text \<open>
  Two dimensions: of an array with \<open>N1\<close> by \<open>N2\<close> cells, the cells \<open>mbc\<close> up to
  \<open>mbc + mx\<close> and \<open>mbc\<close> up to \<open>mbc + my\<close> are kept.
\<close>

lemma set_global_q_2d_keeps:
  assumes "ndim (grid state) = 2" and "ng (grid state) = [mx, my]"
    and "shape g = [m, N1, N2]" and "0 \<le> mbc self" and "0 \<le> mx" and "0 \<le> my"
    and "mx + mbc self \<le> int N1" and "my + mbc self \<le> int N2"
  shows "set_global_q self state g =
         \<lparr>calls = [Call_getitem], outcome = Returned (),
          post = state\<lparr>q := \<lparr>shape = [m, nat mx, nat my],
            buf = map (\<lambda>k. buf g ! k)
              (offsets_F [m, N1, N2] [(0, m), (nat (mbc self), nat (mbc self) + nat mx),
                 (nat (mbc self), nat (mbc self) + nat my)])\<rparr>\<rparr>\<rparr>"
proof -
  have mx: "list_item (ng (grid state)) 0 = Inr mx"
    and my: "list_item (ng (grid state)) 1 = Inr my"
    using assms(2) by (simp_all add: list_item_def)
  have "getitem g [Slice None None, Slice (Some (mbc self)) (Some (mx + mbc self)),
          Slice (Some (mbc self)) (Some (my + mbc self))] =
        Inr \<lparr>shape = [m, nat mx, nat my],
             buf = map (\<lambda>k. buf g ! k)
               (offsets_F [m, N1, N2] [(0, m), (nat (mbc self), nat (mbc self) + nat mx),
                 (nat (mbc self), nat (mbc self) + nat my)])\<rparr>"
    using assms(4-8) by (simp add: getitem_3 [OF assms(3)] slice_indices_window
        del: slice_indices.simps offsets_F.simps)
  with assms(1) mx my show ?thesis by (rule set_global_q_2d_ok)
qed

text \<open>
  On a ghosted array of the padded shape, \<open>set_global_q\<close> keeps the cells that are
  not ghost cells.
\<close>

lemma set_global_q_padded:
  assumes shp: "map int (shape ghosted_q) =
      meqn state # map (\<lambda>n. n + 2 * mbc self) (ng (grid state))"
    and nonneg: "\<forall>n\<in>set (ng (grid state)). 0 \<le> n"
    and dims: "ndim (grid state) = 1 \<and> length (ng (grid state)) = 1 \<and> 1 \<le> mbc self \<or>
      ndim (grid state) = 2 \<and> length (ng (grid state)) = 2 \<and> 0 \<le> mbc self"
  shows "outcome (set_global_q self state ghosted_q) = Returned () \<and>
    post (set_global_q self state ghosted_q) =
      state\<lparr>q := q (post (set_global_q self state ghosted_q))\<rparr> \<and>
    map int (shape (q (post (set_global_q self state ghosted_q)))) =
      meqn state # ng (grid state) \<and>
    (\<forall>e js. list_all2 (<) (e # js) (shape (q (post (set_global_q self state ghosted_q)))) \<longrightarrow>
       nd_at (q (post (set_global_q self state ghosted_q))) (e # js) =
       nd_at ghosted_q (e # map (\<lambda>i. i + nat (mbc self)) js))"
  using dims
proof (elim disjE conjE)
  assume d: "ndim (grid state) = 1" and l: "length (ng (grid state)) = 1" and c: "1 \<le> mbc self"
  from l obtain n where ng: "ng (grid state) = [n]"
    by (cases "ng (grid state)") auto
  from shp ng obtain m N where g: "shape ghosted_q = [m, N]"
    and m: "int m = meqn state" and N: "int N = n + 2 * mbc self"
    by (auto simp: map_eq_Cons_conv)
  have n: "0 \<le> n" using nonneg ng by simp
  have w: "N - nat (mbc self) - nat (mbc self) = nat n" using N c n by linarith
  have run: "set_global_q self state ghosted_q =
      \<lparr>calls = [Call_getitem], outcome = Returned (),
       post = state\<lparr>q := \<lparr>shape = [m, nat n],
         buf = map (\<lambda>k. buf ghosted_q ! k)
           (offsets_F [m, N] [(0, m), (nat (mbc self), N - nat (mbc self))])\<rparr>\<rparr>\<rparr>"
    using set_global_q_1d_keeps [OF d g c] N n w by simp
  have elems: "nd_at \<lparr>shape = [m, nat n],
         buf = map (\<lambda>k. buf ghosted_q ! k)
           (offsets_F [m, N] [(0, m), (nat (mbc self), N - nat (mbc self))])\<rparr> [e, i] =
       nd_at ghosted_q [e, i + nat (mbc self)]" if "e < m" and "i < nat n" for e i
    using nd_at_selection_2 [of "nat n" "N - nat (mbc self)" "nat (mbc self)" e m i
        "buf ghosted_q" N] that w g
    by (simp add: nd_at_def)
  show ?thesis
    unfolding run using m n ng elems by (auto simp: list_all2_Cons2)
next
  assume d: "ndim (grid state) = 2" and l: "length (ng (grid state)) = 2" and c: "0 \<le> mbc self"
  from l obtain mx my where ng: "ng (grid state) = [mx, my]"
    by (cases "ng (grid state)"; cases "tl (ng (grid state))") auto
  from shp ng obtain m N1 N2 where g: "shape ghosted_q = [m, N1, N2]"
    and m: "int m = meqn state" and N1: "int N1 = mx + 2 * mbc self"
    and N2: "int N2 = my + 2 * mbc self"
    by (auto simp: map_eq_Cons_conv)
  have mx: "0 \<le> mx" and my: "0 \<le> my" using nonneg ng by simp_all
  have run: "set_global_q self state ghosted_q =
      \<lparr>calls = [Call_getitem], outcome = Returned (),
       post = state\<lparr>q := \<lparr>shape = [m, nat mx, nat my],
         buf = map (\<lambda>k. buf ghosted_q ! k)
           (offsets_F [m, N1, N2] [(0, m), (nat (mbc self), nat (mbc self) + nat mx),
              (nat (mbc self), nat (mbc self) + nat my)])\<rparr>\<rparr>\<rparr>"
    using set_global_q_2d_keeps [OF d ng g c mx my] N1 N2 c by simp
  have elems: "nd_at \<lparr>shape = [m, nat mx, nat my],
         buf = map (\<lambda>k. buf ghosted_q ! k)
           (offsets_F [m, N1, N2] [(0, m), (nat (mbc self), nat (mbc self) + nat mx),
              (nat (mbc self), nat (mbc self) + nat my)])\<rparr> [e, i, j] =
       nd_at ghosted_q [e, i + nat (mbc self), j + nat (mbc self)]"
    if "e < m" and "i < nat mx" and "j < nat my" for e i j
    using nd_at_selection_3 [of "nat mx" "nat (mbc self) + nat mx" "nat (mbc self)"
        "nat my" "nat (mbc self) + nat my" "nat (mbc self)" e m i j "buf ghosted_q" N1 N2]
      that g
    by (simp add: nd_at_def)
  show ?thesis
    unfolding run using m mx my ng elems by (auto simp: list_all2_Cons2)
qed

section \<open>The stages that \<open>allocate_rk_stages\<close> builds\<close>

lemma set_last_snoc: "set_last f (xs @ [x]) = xs @ [f x]"
  by (simp add: set_last_def)

text \<open>One turn of the loop appends one state, built from \<open>state\<close> alone.\<close>

lemma rk_stage_step_snoc:
  "rk_stage_step cls self state stages =
   stages @ [if maux state > 0
     then (set_stencil_width cls (mbc self)
        ((State_new cls (grid state))\<lparr>meqn := meqn state, maux := maux state\<rparr>))
        \<lparr>aux_global := aux_global state, t := t state, aux := aux state\<rparr>
     else (set_stencil_width cls (mbc self)
        ((State_new cls (grid state))\<lparr>meqn := meqn state, maux := maux state\<rparr>))
        \<lparr>aux_global := aux_global state, t := t state\<rparr>]"
  by (simp add: rk_stage_step_def Let_def set_last_snoc)

lemma for_range_snoc:
  "(\<And>xs. body xs = xs @ [x]) \<Longrightarrow> for_range n body ys = ys @ replicate n x"
proof (induction n arbitrary: ys)
  case 0
  then show ?case by simp
next
  case (Suc n)
  then show ?case by (simp add: replicate_app_Cons_same)
qed

lemma allocate_rk_stages_unbound:
  assumes "solutions ''n'' = Some sol" and "states sol = state # rest"
    and "nregisters_of (time_integrator self) = None"
  shows "allocate_rk_stages cls self solutions =
         (Raised UnboundLocalError, self\<lparr>rk_stages := []\<rparr>)"
  using assms by (simp add: allocate_rk_stages_def list_item_def Let_def)

lemma allocate_rk_stages_returns:
  assumes "solutions ''n'' = Some sol" and "states sol = state # rest"
    and "nregisters_of (time_integrator self) = Some nregisters"
  shows "allocate_rk_stages cls self solutions =
         (Returned (), self\<lparr>rk_stages := replicate (nat (nregisters - 1))
            (if maux state > 0
             then (set_stencil_width cls (mbc self)
                ((State_new cls (grid state))\<lparr>meqn := meqn state, maux := maux state\<rparr>))
                \<lparr>aux_global := aux_global state, t := t state, aux := aux state\<rparr>
             else (set_stencil_width cls (mbc self)
                ((State_new cls (grid state))\<lparr>meqn := meqn state, maux := maux state\<rparr>))
                \<lparr>aux_global := aux_global state, t := t state\<rparr>)\<rparr>)"
proof -
  have "for_range (nat (nregisters - 1)) (rk_stage_step cls self state) [] =
      [] @ replicate (nat (nregisters - 1))
        (if maux state > 0
         then (set_stencil_width cls (mbc self)
            ((State_new cls (grid state))\<lparr>meqn := meqn state, maux := maux state\<rparr>))
            \<lparr>aux_global := aux_global state, t := t state, aux := aux state\<rparr>
         else (set_stencil_width cls (mbc self)
            ((State_new cls (grid state))\<lparr>meqn := meqn state, maux := maux state\<rparr>))
            \<lparr>aux_global := aux_global state, t := t state\<rparr>)"
    by (rule for_range_snoc) (rule rk_stage_step_snoc)
  then show ?thesis
    using assms by (simp add: allocate_rk_stages_def list_item_def Let_def)
qed

section \<open>How the methods end\<close>

lemma set_global_q_raises_NotImplementedError_iff:
  "outcome (set_global_q self state ghosted_q) = Raised NotImplementedError \<longleftrightarrow>
   ndim (grid state) \<noteq> 1 \<and> ndim (grid state) \<noteq> 2"
proof (cases "ndim (grid state) = 1")
  case True
  show ?thesis
  proof (cases "getitem ghosted_q
      [Slice None None, Slice (Some (mbc self)) (Some (- mbc self))]")
    case (Inl e)
    then have "e = IndexError" by (rule getitem_error)
    with True Inl show ?thesis by (simp add: set_global_q_1d_raise)
  next
    case (Inr a)
    with True show ?thesis by (simp add: set_global_q_1d_ok)
  qed
next
  case not1: False
  show ?thesis
  proof (cases "ndim (grid state) = 2")
    case False
    with not1 show ?thesis by (simp add: set_global_q_3d)
  next
    case True
    show ?thesis
    proof (cases "list_item (ng (grid state)) 0")
      case (Inl e)
      then have "e = IndexError" by (rule list_item_error)
      with True Inl show ?thesis by (simp add: set_global_q_2d_raise_mx)
    next
      case mx: (Inr mx)
      show ?thesis
      proof (cases "list_item (ng (grid state)) 1")
        case (Inl e)
        then have "e = IndexError" by (rule list_item_error)
        with True mx Inl show ?thesis by (simp add: set_global_q_2d_raise_my)
      next
        case my: (Inr my)
        show ?thesis
        proof (cases "getitem ghosted_q [Slice None None,
            Slice (Some (mbc self)) (Some (mx + mbc self)),
            Slice (Some (mbc self)) (Some (my + mbc self))]")
          case (Inl e)
          then have "e = IndexError" by (rule getitem_error)
          with True mx my Inl show ?thesis by (simp add: set_global_q_2d_raise)
        next
          case (Inr a)
          with True mx my show ?thesis by (simp add: set_global_q_2d_ok)
        qed
      qed
    qed
  qed
qed

lemma append_ghost_cells_error:
  "outcome (append_ghost_cells self state) = Raised e \<Longrightarrow> e = ValueError"
proof (cases "reshape_F (q_da state (gqVec state) (lqVec state))
     (meqn state # map (\<lambda>n. n + 2 * mbc self) (ng (grid state)))")
  case (Inl e')
  assume "outcome (append_ghost_cells self state) = Raised e"
  with Inl have "e = e'" by (simp add: append_ghost_cells_raise)
  with Inl show ?thesis by (simp add: reshape_F_error)
next
  case (Inr g)
  assume "outcome (append_ghost_cells self state) = Raised e"
  with Inr show ?thesis by (simp add: append_ghost_cells_ok)
qed

lemma append_ghost_cells_to_aux_error:
  "outcome (append_ghost_cells_to_aux self state) = Raised e \<Longrightarrow> e = ValueError"
proof (cases "reshape_F (aux_da state (gauxVec state) (lauxVec state))
     (maux state # map (\<lambda>n. n + 2 * mbc self) (ng (grid state)))")
  case (Inl e')
  assume "outcome (append_ghost_cells_to_aux self state) = Raised e"
  with Inl have "e = e'" by (simp add: append_ghost_cells_to_aux_raise)
  with Inl show ?thesis by (simp add: reshape_F_error)
next
  case (Inr g)
  assume "outcome (append_ghost_cells_to_aux self state) = Raised e"
  with Inr show ?thesis by (simp add: append_ghost_cells_to_aux_ok)
qed

lemma communicateCFL_returns: "outcome (communicateCFL others self) = Returned ()"
  by (simp add: communicateCFL_def)

lemma allocate_rk_stages_error:
  "fst (allocate_rk_stages cls self solutions) = Raised e \<Longrightarrow>
   e = KeyError \<or> e = IndexError \<or> e = UnboundLocalError"
proof (cases "solutions ''n''")
  case None
  assume "fst (allocate_rk_stages cls self solutions) = Raised e"
  with None show ?thesis by (simp add: allocate_rk_stages_def)
next
  case (Some sol)
  assume r: "fst (allocate_rk_stages cls self solutions) = Raised e"
  show ?thesis
  proof (cases "list_item (states sol) 0")
    case (Inl e')
    then have "e' = IndexError" by (rule list_item_error)
    with r Some Inl show ?thesis by (simp add: allocate_rk_stages_def)
  next
    case (Inr state)
    with r Some show ?thesis
      by (cases "nregisters_of (time_integrator self)")
         (simp_all add: allocate_rk_stages_def Let_def)
  qed
qed

section \<open>Results\<close>

text \<open>
  C1, as the code has it. Let \<open>ghosted_q\<close> have the shape of the ghosted array of the
  state, \<open>meqn\<close> followed by \<open>n + 2 * mbc\<close> for every \<open>n\<close> of \<open>grid.ng\<close>, the
  entries of \<open>grid.ng\<close> being non-negative and as many as \<open>grid.ndim\<close>. On a 1D grid
  with \<open>mbc\<close> at least 1, and on a 2D grid with \<open>mbc\<close> at least 0,
  \<open>set_global_q\<close> returns, changes no attribute of the state but \<open>q\<close>, and leaves
  in \<open>state.q\<close> an array of shape \<open>meqn\<close> followed by \<open>grid.ng\<close> whose element
  at \<open>(e, i, ...)\<close> is the element of \<open>ghosted_q\<close> at \<open>(e, i + mbc, ...)\<close>.
\<close>

theorem set_global_q_interior:
  assumes shp: "map int (shape ghosted_q) =
      meqn state # map (\<lambda>n. n + 2 * mbc self) (ng (grid state))"
    and nonneg: "\<forall>n\<in>set (ng (grid state)). 0 \<le> n"
    and dims: "ndim (grid state) = 1 \<and> length (ng (grid state)) = 1 \<and> 1 \<le> mbc self \<or>
      ndim (grid state) = 2 \<and> length (ng (grid state)) = 2 \<and> 0 \<le> mbc self"
  shows "outcome (set_global_q self state ghosted_q) = Returned () \<and>
    post (set_global_q self state ghosted_q) =
      state\<lparr>q := q (post (set_global_q self state ghosted_q))\<rparr> \<and>
    map int (shape (q (post (set_global_q self state ghosted_q)))) =
      meqn state # ng (grid state) \<and>
    (\<forall>e js. list_all2 (<) (e # js) (shape (q (post (set_global_q self state ghosted_q)))) \<longrightarrow>
       nd_at (q (post (set_global_q self state ghosted_q))) (e # js) =
       nd_at ghosted_q (e # map (\<lambda>i. i + nat (mbc self)) js))"
  using shp nonneg dims by (rule set_global_q_padded)

theorem set_global_q_interior_witness:
  "mbc ex_solver = 1 \<and>
   shape ex_ghosted_1d = [2, 4] \<and> meqn ex_state_1d = 2 \<and> ng (grid ex_state_1d) = [2] \<and>
   ndim (grid ex_state_1d) = 1 \<and>
   outcome (set_global_q ex_solver ex_state_1d ex_ghosted_1d) = Returned () \<and>
   shape (q (post (set_global_q ex_solver ex_state_1d ex_ghosted_1d))) = [2, 2] \<and>
   nd_at (q (post (set_global_q ex_solver ex_state_1d ex_ghosted_1d))) [1, 0] = 2 \<and>
   shape ex_ghosted_2d = [1, 4, 3] \<and> meqn ex_state_2d = 1 \<and> ng (grid ex_state_2d) = [2, 1] \<and>
   ndim (grid ex_state_2d) = 2 \<and>
   outcome (set_global_q ex_solver ex_state_2d ex_ghosted_2d) = Returned () \<and>
   shape (q (post (set_global_q ex_solver ex_state_2d ex_ghosted_2d))) = [1, 2, 1] \<and>
   nd_at (q (post (set_global_q ex_solver ex_state_2d ex_ghosted_2d))) [0, 1, 0] = 6"
proof -
  have h1: "map int (shape ex_ghosted_1d) =
     meqn ex_state_1d # map (\<lambda>n. n + 2 * mbc ex_solver) (ng (grid ex_state_1d))"
    by (simp add: ex_ghosted_1d_def ex_state_1d_def ex_solver_def)
  have h2: "\<forall>n\<in>set (ng (grid ex_state_1d)). 0 \<le> n"
    by (simp add: ex_state_1d_def)
  have h3: "ndim (grid ex_state_1d) = 1 \<and> length (ng (grid ex_state_1d)) = 1 \<and>
      1 \<le> mbc ex_solver \<or>
      ndim (grid ex_state_1d) = 2 \<and> length (ng (grid ex_state_1d)) = 2 \<and> 0 \<le> mbc ex_solver"
    by (simp add: ex_state_1d_def ex_solver_def)
  note r = set_global_q_interior [OF h1 h2 h3]
  have shape: "shape (q (post (set_global_q ex_solver ex_state_1d ex_ghosted_1d))) = [2, 2]"
    using r by (simp add: ex_state_1d_def map_eq_Cons_conv)
  have "nd_at (q (post (set_global_q ex_solver ex_state_1d ex_ghosted_1d))) [1, 0] =
      nd_at ex_ghosted_1d [1, 0 + nat (mbc ex_solver)]"
    using r shape by simp
  also have "\<dots> = 2"
    by (simp add: nd_at_def ex_ghosted_1d_def ex_solver_def)
  finally have one: "outcome (set_global_q ex_solver ex_state_1d ex_ghosted_1d) = Returned () \<and>
      shape (q (post (set_global_q ex_solver ex_state_1d ex_ghosted_1d))) = [2, 2] \<and>
      nd_at (q (post (set_global_q ex_solver ex_state_1d ex_ghosted_1d))) [1, 0] = 2"
    using r shape by simp
  have k1: "map int (shape ex_ghosted_2d) =
     meqn ex_state_2d # map (\<lambda>n. n + 2 * mbc ex_solver) (ng (grid ex_state_2d))"
    by (simp add: ex_ghosted_2d_def ex_state_2d_def ex_solver_def)
  have k2: "\<forall>n\<in>set (ng (grid ex_state_2d)). 0 \<le> n"
    by (simp add: ex_state_2d_def)
  have k3: "ndim (grid ex_state_2d) = 1 \<and> length (ng (grid ex_state_2d)) = 1 \<and>
      1 \<le> mbc ex_solver \<or>
      ndim (grid ex_state_2d) = 2 \<and> length (ng (grid ex_state_2d)) = 2 \<and> 0 \<le> mbc ex_solver"
    by (simp add: ex_state_2d_def ex_solver_def)
  note r2 = set_global_q_interior [OF k1 k2 k3]
  have shape2: "shape (q (post (set_global_q ex_solver ex_state_2d ex_ghosted_2d))) =
      [1, 2, 1]"
    using r2 by (simp add: ex_state_2d_def map_eq_Cons_conv)
  have "nd_at (q (post (set_global_q ex_solver ex_state_2d ex_ghosted_2d))) [0, 1, 0] =
      nd_at ex_ghosted_2d [0, 1 + nat (mbc ex_solver), 0 + nat (mbc ex_solver)]"
    using r2 shape2 by simp
  also have "\<dots> = 6"
    by (simp add: nd_at_def ex_ghosted_2d_def ex_solver_def)
  finally have two: "outcome (set_global_q ex_solver ex_state_2d ex_ghosted_2d) = Returned () \<and>
      shape (q (post (set_global_q ex_solver ex_state_2d ex_ghosted_2d))) = [1, 2, 1] \<and>
      nd_at (q (post (set_global_q ex_solver ex_state_2d ex_ghosted_2d))) [0, 1, 0] = 6"
    using r2 shape2 by simp
  from one two show ?thesis
    by (simp add: ex_ghosted_1d_def ex_ghosted_2d_def ex_state_1d_def ex_state_2d_def
        ex_solver_def)
qed

text \<open>
  C1 as stated fails on a 1D grid with no ghost cells: the ghosted array has the shape
  of the state's \<open>q\<close>, two equations by two cells, and \<open>set_global_q\<close> leaves an
  array with no cell in \<open>state.q\<close>. It also fails, with \<open>mbc = 1\<close>, for an array that
  has not the shape of the ghosted array: of six cells four are kept, on a grid of two.
\<close>

theorem set_global_q_interior_counterexample:
  "ndim (grid ex_state_1d) = 1 \<and> meqn ex_state_1d = 2 \<and> ng (grid ex_state_1d) = [2] \<and>
   mbc (ex_solver\<lparr>mbc := 0\<rparr>) = 0 \<and>
   outcome (set_global_q (ex_solver\<lparr>mbc := 0\<rparr>) ex_state_1d
     \<lparr>shape = [2, 2], buf = [1, 2, 3, 4]\<rparr>) = Returned () \<and>
   shape (q (post (set_global_q (ex_solver\<lparr>mbc := 0\<rparr>) ex_state_1d
     \<lparr>shape = [2, 2], buf = [1, 2, 3, 4]\<rparr>))) = [2, 0] \<and>
   mbc ex_solver = 1 \<and> shape ex_ghosted_long = [2, 6] \<and>
   outcome (set_global_q ex_solver ex_state_1d ex_ghosted_long) = Returned () \<and>
   shape (q (post (set_global_q ex_solver ex_state_1d ex_ghosted_long))) = [2, 4]"
proof -
  have d: "ndim (grid ex_state_1d) = 1" by (simp add: ex_state_1d_def)
  have "getitem \<lparr>shape = [2, 2], buf = [1, 2, 3, 4 :: int]\<rparr>
      [Slice None None, Slice (Some (mbc (ex_solver\<lparr>mbc := 0\<rparr>)))
        (Some (- mbc (ex_solver\<lparr>mbc := 0\<rparr>)))] = Inr \<lparr>shape = [2, 0], buf = []\<rparr>"
    by (simp add: getitem_def)
  from set_global_q_1d_ok [OF d this]
  have slip: "outcome (set_global_q (ex_solver\<lparr>mbc := 0\<rparr>) ex_state_1d
      \<lparr>shape = [2, 2], buf = [1, 2, 3, 4]\<rparr>) = Returned () \<and>
    shape (q (post (set_global_q (ex_solver\<lparr>mbc := 0\<rparr>) ex_state_1d
      \<lparr>shape = [2, 2], buf = [1, 2, 3, 4]\<rparr>))) = [2, 0]"
    by simp
  have c: "mbc ex_solver = 1" by (simp add: ex_solver_def)
  have g: "shape ex_ghosted_long = [2, 6]" by (simp add: ex_ghosted_long_def)
  have long: "outcome (set_global_q ex_solver ex_state_1d ex_ghosted_long) = Returned () \<and>
    shape (q (post (set_global_q ex_solver ex_state_1d ex_ghosted_long))) = [2, 4]"
    using set_global_q_1d_keeps [OF d g, of ex_solver] by (simp add: c)
  from slip long c g d show ?thesis by (simp add: ex_state_1d_def)
qed

text \<open>
  C2. \<open>set_global_q\<close> raises \<open>NotImplementedError\<close> exactly when \<open>grid.ndim\<close> is
  neither 1 nor 2, and no other method of the solver ends with that exception: the
  \<open>raise\<close> of \<open>set_global_q\<close> is the only one of the module.
\<close>

theorem NotImplementedError_only_from_set_global_q:
  "(outcome (set_global_q self state ghosted_q) = Raised NotImplementedError \<longleftrightarrow>
      ndim (grid state) \<noteq> 1 \<and> ndim (grid state) \<noteq> 2) \<and>
   outcome (append_ghost_cells self state) \<noteq> Raised NotImplementedError \<and>
   outcome (append_ghost_cells_to_aux self state) \<noteq> Raised NotImplementedError \<and>
   outcome (communicateCFL others self) \<noteq> Raised NotImplementedError \<and>
   fst (allocate_rk_stages cls self solutions) \<noteq> Raised NotImplementedError"
proof -
  have "outcome (append_ghost_cells self state) \<noteq> Raised NotImplementedError"
    using append_ghost_cells_error [of self state NotImplementedError] by auto
  moreover have "outcome (append_ghost_cells_to_aux self state) \<noteq> Raised NotImplementedError"
    using append_ghost_cells_to_aux_error [of self state NotImplementedError] by auto
  moreover have "outcome (communicateCFL others self) \<noteq> Raised NotImplementedError"
    by (simp add: communicateCFL_returns)
  moreover have "fst (allocate_rk_stages cls self solutions) \<noteq> Raised NotImplementedError"
    using allocate_rk_stages_error [of cls self solutions NotImplementedError] by auto
  ultimately show ?thesis
    using set_global_q_raises_NotImplementedError_iff [of self state ghosted_q] by blast
qed

theorem NotImplementedError_only_from_set_global_q_witness:
  "outcome (set_global_q ex_solver ex_state_3d ex_ghosted_1d) = Raised NotImplementedError \<and>
   outcome (set_global_q ex_solver ex_state_1d ex_ghosted_1d) \<noteq> Raised NotImplementedError"
proof -
  have h3: "ndim (grid ex_state_3d) \<noteq> 1 \<and> ndim (grid ex_state_3d) \<noteq> 2"
    by (simp add: ex_state_3d_def)
  have h1: "\<not> (ndim (grid ex_state_1d) \<noteq> 1 \<and> ndim (grid ex_state_1d) \<noteq> 2)"
    by (simp add: ex_state_1d_def)
  from NotImplementedError_only_from_set_global_q [of ex_solver ex_state_3d ex_ghosted_1d] h3
    NotImplementedError_only_from_set_global_q [of ex_solver ex_state_1d ex_ghosted_1d] h1
  show ?thesis by blast
qed

text \<open>
  C3, as the code has it. When the local vector, after the scatter, has as many
  entries as the ghosted shape has elements (\<open>meqn\<close>, resp. \<open>maux\<close>, times the
  product of \<open>n + 2 * mbc\<close> over \<open>grid.ng\<close>, no factor negative),
  \<open>append_ghost_cells\<close>, resp. \<open>append_ghost_cells_to_aux\<close>, returns the local
  vector, in Fortran order, under the shape \<open>meqn\<close>, resp. \<open>maux\<close>, followed by
  \<open>n + 2 * mbc\<close> for every \<open>n\<close> of \<open>grid.ng\<close>.
\<close>

theorem append_ghost_cells_shape:
  assumes "\<forall>n\<in>set (ng (grid state)). 0 \<le> n + 2 * mbc self"
  shows "(0 \<le> meqn state \<longrightarrow>
      int (length (q_da state (gqVec state) (lqVec state))) =
        meqn state * prod_list (map (\<lambda>n. n + 2 * mbc self) (ng (grid state))) \<longrightarrow>
      outcome (append_ghost_cells self state) =
        Returned \<lparr>shape = nat (meqn state) # map (\<lambda>n. nat (n + 2 * mbc self)) (ng (grid state)),
                  buf = q_da state (gqVec state) (lqVec state)\<rparr>) \<and>
    (0 \<le> maux state \<longrightarrow>
      int (length (aux_da state (gauxVec state) (lauxVec state))) =
        maux state * prod_list (map (\<lambda>n. n + 2 * mbc self) (ng (grid state))) \<longrightarrow>
      outcome (append_ghost_cells_to_aux self state) =
        Returned \<lparr>shape = nat (maux state) # map (\<lambda>n. nat (n + 2 * mbc self)) (ng (grid state)),
                  buf = aux_da state (gauxVec state) (lauxVec state)\<rparr>)"
proof (intro conjI impI)
  let ?dims = "meqn state # map (\<lambda>n. n + 2 * mbc self) (ng (grid state))"
  let ?lq = "q_da state (gqVec state) (lqVec state)"
  assume m: "0 \<le> meqn state" and len: "int (length ?lq) =
    meqn state * prod_list (map (\<lambda>n. n + 2 * mbc self) (ng (grid state)))"
  have nonneg: "\<forall>d\<in>set ?dims. 0 \<le> d" using assms m by auto
  have "reshape_F ?lq ?dims = Inr \<lparr>shape = map nat ?dims, buf = ?lq\<rparr>"
    using nonneg len by (intro reshape_F_fits) simp_all
  from append_ghost_cells_ok [OF this]
  show "outcome (append_ghost_cells self state) =
      Returned \<lparr>shape = nat (meqn state) # map (\<lambda>n. nat (n + 2 * mbc self)) (ng (grid state)),
                buf = ?lq\<rparr>"
    by (simp add: o_def)
next
  let ?dims = "maux state # map (\<lambda>n. n + 2 * mbc self) (ng (grid state))"
  let ?la = "aux_da state (gauxVec state) (lauxVec state)"
  assume m: "0 \<le> maux state" and len: "int (length ?la) =
    maux state * prod_list (map (\<lambda>n. n + 2 * mbc self) (ng (grid state)))"
  have nonneg: "\<forall>d\<in>set ?dims. 0 \<le> d" using assms m by auto
  have "reshape_F ?la ?dims = Inr \<lparr>shape = map nat ?dims, buf = ?la\<rparr>"
    using nonneg len by (intro reshape_F_fits) simp_all
  from append_ghost_cells_to_aux_ok [OF this]
  show "outcome (append_ghost_cells_to_aux self state) =
      Returned \<lparr>shape = nat (maux state) # map (\<lambda>n. nat (n + 2 * mbc self)) (ng (grid state)),
                buf = ?la\<rparr>"
    by (simp add: o_def)
qed

theorem append_ghost_cells_shape_witness:
  "ng (grid ex_state_1d) = [2] \<and> mbc ex_solver = 1 \<and> meqn ex_state_1d = 2 \<and>
   maux ex_state_1d = 1 \<and>
   outcome (append_ghost_cells ex_solver ex_state_1d) =
     Returned \<lparr>shape = [2, 4], buf = [7, 7, 1, 2, 3, 4, 9, 9]\<rparr> \<and>
   outcome (append_ghost_cells_to_aux ex_solver ex_state_1d) =
     Returned \<lparr>shape = [1, 4], buf = [5, 5, 6, 6]\<rparr>"
proof -
  have h0: "\<forall>n\<in>set (ng (grid ex_state_1d)). 0 \<le> n + 2 * mbc ex_solver"
    by (simp add: ex_state_1d_def ex_solver_def)
  have h1: "0 \<le> meqn ex_state_1d" and h3: "0 \<le> maux ex_state_1d"
    by (simp_all add: ex_state_1d_def)
  have h2: "int (length (q_da ex_state_1d (gqVec ex_state_1d) (lqVec ex_state_1d))) =
      meqn ex_state_1d * prod_list (map (\<lambda>n. n + 2 * mbc ex_solver) (ng (grid ex_state_1d)))"
    by (simp add: ex_state_1d_def ex_solver_def)
  have h4: "int (length (aux_da ex_state_1d (gauxVec ex_state_1d) (lauxVec ex_state_1d))) =
      maux ex_state_1d * prod_list (map (\<lambda>n. n + 2 * mbc ex_solver) (ng (grid ex_state_1d)))"
    by (simp add: ex_state_1d_def ex_solver_def)
  note r = append_ghost_cells_shape [OF h0]
  from r [THEN conjunct1, THEN mp, THEN mp, OF h1 h2]
    r [THEN conjunct2, THEN mp, THEN mp, OF h3 h4]
  show ?thesis
    by (simp add: ex_state_1d_def ex_solver_def)
qed

text \<open>
  C3 as stated fails for a state whose local vector was laid out for another stencil
  width: the local vector of the 1D example state, two equations on four cells, does
  not reshape to the six cells that \<open>mbc = 2\<close> asks for, and \<open>append_ghost_cells\<close>
  ends with the \<open>ValueError\<close> of numpy instead of returning an array.
\<close>

theorem append_ghost_cells_shape_counterexample:
  "mbc (ex_solver\<lparr>mbc := 2\<rparr>) = 2 \<and> meqn ex_state_1d = 2 \<and> ng (grid ex_state_1d) = [2] \<and>
   length (q_da ex_state_1d (gqVec ex_state_1d) (lqVec ex_state_1d)) = 8 \<and>
   outcome (append_ghost_cells (ex_solver\<lparr>mbc := 2\<rparr>) ex_state_1d) = Raised ValueError"
proof -
  have "reshape_F (q_da ex_state_1d (gqVec ex_state_1d) (lqVec ex_state_1d))
     (meqn ex_state_1d # map (\<lambda>n. n + 2 * mbc (ex_solver\<lparr>mbc := 2\<rparr>)) (ng (grid ex_state_1d)))
     = Inl ValueError"
    by (simp add: reshape_F_def ex_state_1d_def)
  from append_ghost_cells_raise [OF this]
  have "outcome (append_ghost_cells (ex_solver\<lparr>mbc := 2\<rparr>) ex_state_1d) = Raised ValueError"
    by simp
  then show ?thesis by (simp add: ex_state_1d_def)
qed

text \<open>
  C4, as the code has it. When \<open>dt_variable\<close> is set, \<open>communicateCFL\<close> leaves in
  \<open>self.cfl\<close> the maximum of the CFL values of all processes, its own and the others',
  and changes nothing else; when \<open>dt_variable\<close> is not set, it changes nothing.
\<close>

theorem communicateCFL_max:
  "outcome (communicateCFL others self) = Returned () \<and>
   (dt_variable self \<longrightarrow>
      post (communicateCFL others self) = self\<lparr>cfl := Max (set (cfl self # others))\<rparr>) \<and>
   (\<not> dt_variable self \<longrightarrow> post (communicateCFL others self) = self)"
proof -
  have "snd (Vec_max (cfl self) others) = Max (set (cfl self # others))"
    using Max.set_eq_fold [of "cfl self" others] by (simp add: Vec_max_def Let_def)
  then show ?thesis by (simp add: communicateCFL_def)
qed

theorem communicateCFL_max_witness:
  "dt_variable ex_solver \<and> cfl ex_solver = 1 / 2 \<and>
   cfl (post (communicateCFL [9 / 10, 3 / 10] ex_solver)) = 9 / 10 \<and>
   \<not> dt_variable (ex_solver\<lparr>dt_variable := False\<rparr>) \<and>
   cfl (post (communicateCFL [9 / 10, 3 / 10] (ex_solver\<lparr>dt_variable := False\<rparr>))) = 1 / 2"
proof -
  have h: "dt_variable ex_solver" by (simp add: ex_solver_def)
  have h': "\<not> dt_variable (ex_solver\<lparr>dt_variable := False\<rparr>)" by simp
  have c: "cfl ex_solver = 1 / 2" by (simp add: ex_solver_def)
  from communicateCFL_max [of "[9 / 10, 3 / 10]" ex_solver] h
  have "cfl (post (communicateCFL [9 / 10, 3 / 10] ex_solver)) =
      Max (set (cfl ex_solver # [9 / 10, 3 / 10]))" by simp
  also have "\<dots> = 9 / 10" by (simp add: c)
  finally have a: "cfl (post (communicateCFL [9 / 10, 3 / 10] ex_solver)) = 9 / 10" .
  from communicateCFL_max [of "[9 / 10, 3 / 10]" "ex_solver\<lparr>dt_variable := False\<rparr>"] h'
  have b: "cfl (post (communicateCFL [9 / 10, 3 / 10] (ex_solver\<lparr>dt_variable := False\<rparr>))) =
      1 / 2" by (simp add: c)
  from a b c h h' show ?thesis by simp
qed

text \<open>
  C4 as stated fails for a solver with a fixed time step: \<open>communicateCFL\<close> then does
  not reduce, and \<open>self.cfl\<close> stays below the maximum over the processes.
\<close>

theorem communicateCFL_max_counterexample:
  "cfl (post (communicateCFL [9 / 10] (ex_solver\<lparr>dt_variable := False\<rparr>))) = 1 / 2 \<and>
   Max (set (cfl (ex_solver\<lparr>dt_variable := False\<rparr>) # [9 / 10])) = 9 / 10"
  by (simp add: communicateCFL_def ex_solver_def)

text \<open>
  C5, as the code has it. Let the local vector after the scatter have \<open>meqn\<close> times
  the product of \<open>n + 2 * mbc\<close> over \<open>grid.ng\<close> entries, \<open>mbc\<close> be at least 1,
  the entries of \<open>grid.ng\<close> be non-negative, and \<open>grid.ng\<close> have \<open>grid.ndim\<close>
  entries, one or two. Then
  \<open>set_global_q(state, append_ghost_cells(state))\<close> returns, the local vector of the
  state is the scattered one, and \<open>state.q\<close> has the shape \<open>meqn\<close> followed by
  \<open>grid.ng\<close> and holds the interior of the local vector: its element at
  \<open>(e, i, ...)\<close> is the entry of the local vector at the position, in Fortran order
  of the ghosted shape, of \<open>(e, i + mbc, ...)\<close>.
\<close>

theorem set_global_q_of_append_ghost_cells_interior:
  assumes fit: "int (length (q_da state (gqVec state) (lqVec state))) =
      meqn state * prod_list (map (\<lambda>n. n + 2 * mbc self) (ng (grid state)))"
    and nonneg: "\<forall>n\<in>set (ng (grid state)). 0 \<le> n" and c: "1 \<le> mbc self"
    and dims: "ndim (grid state) = 1 \<and> length (ng (grid state)) = 1 \<or>
      ndim (grid state) = 2 \<and> length (ng (grid state)) = 2"
  shows "outcome (set_global_q_of_append_ghost_cells self state) = Returned () \<and>
    lqVec (post (set_global_q_of_append_ghost_cells self state)) =
      q_da state (gqVec state) (lqVec state) \<and>
    map int (shape (q (post (set_global_q_of_append_ghost_cells self state)))) =
      meqn state # ng (grid state) \<and>
    (\<forall>e js. list_all2 (<) (e # js)
         (shape (q (post (set_global_q_of_append_ghost_cells self state)))) \<longrightarrow>
       nd_at (q (post (set_global_q_of_append_ghost_cells self state))) (e # js) =
       q_da state (gqVec state) (lqVec state) !
         offset_F (nat (meqn state) # map (\<lambda>n. nat (n + 2 * mbc self)) (ng (grid state)))
           (e # map (\<lambda>i. i + nat (mbc self)) js))"
proof -
  let ?lq = "q_da state (gqVec state) (lqVec state)"
  let ?dims = "meqn state # map (\<lambda>n. n + 2 * mbc self) (ng (grid state))"
  let ?g = "\<lparr>shape = map nat ?dims, buf = ?lq\<rparr>"
  let ?state1 = "state\<lparr>lqVec := ?lq\<rparr>"
  have "0 < prod_list (map (\<lambda>n. n + 2 * mbc self) (ng (grid state)))"
    using nonneg c by (intro prod_list_positive) auto
  moreover have "0 \<le> meqn state *
      prod_list (map (\<lambda>n. n + 2 * mbc self) (ng (grid state)))"
    using fit by linarith
  ultimately have m: "0 \<le> meqn state" by (simp add: zero_le_mult_iff)
  have pos: "\<forall>d\<in>set ?dims. 0 \<le> d" using m nonneg c by auto
  have "reshape_F ?lq ?dims = Inr ?g"
    using pos fit by (intro reshape_F_fits) simp_all
  from append_ghost_cells_ok [OF this]
  have first: "append_ghost_cells self state =
      \<lparr>calls = [Call_globalToLocal, Call_getArray, Call_reshape], outcome = Returned ?g,
       post = ?state1\<rparr>" .
  have both: "set_global_q_of_append_ghost_cells self state =
      \<lparr>calls = [Call_globalToLocal, Call_getArray, Call_reshape] @
         calls (set_global_q self ?state1 ?g),
       outcome = outcome (set_global_q self ?state1 ?g),
       post = post (set_global_q self ?state1 ?g)\<rparr>"
    unfolding set_global_q_of_append_ghost_cells_def first by (simp add: Let_def)
  have shp: "map int (shape ?g) =
      meqn ?state1 # map (\<lambda>n. n + 2 * mbc self) (ng (grid ?state1))"
    using pos by (simp add: o_def)
  have nonneg1: "\<forall>n\<in>set (ng (grid ?state1)). 0 \<le> n" using nonneg by simp
  have dims1: "ndim (grid ?state1) = 1 \<and> length (ng (grid ?state1)) = 1 \<and> 1 \<le> mbc self \<or>
      ndim (grid ?state1) = 2 \<and> length (ng (grid ?state1)) = 2 \<and> 0 \<le> mbc self"
    using dims c by auto
  note second = set_global_q_padded [OF shp nonneg1 dims1]
  have kept: "post (set_global_q self ?state1 ?g) =
      ?state1\<lparr>q := q (post (set_global_q self ?state1 ?g))\<rparr>"
    using second by blast
  have "lqVec (post (set_global_q self ?state1 ?g)) = ?lq"
    by (subst kept) simp
  moreover have "outcome (set_global_q self ?state1 ?g) = Returned ()"
    using second by blast
  moreover have "map int (shape (q (post (set_global_q self ?state1 ?g)))) =
      meqn state # ng (grid state)"
    using second by simp
  moreover have "nd_at (q (post (set_global_q self ?state1 ?g))) (e # js) =
      ?lq ! offset_F (nat (meqn state) # map (\<lambda>n. nat (n + 2 * mbc self)) (ng (grid state)))
        (e # map (\<lambda>i. i + nat (mbc self)) js)"
    if "list_all2 (<) (e # js) (shape (q (post (set_global_q self ?state1 ?g))))" for e js
  proof -
    have "nd_at (q (post (set_global_q self ?state1 ?g))) (e # js) =
        nd_at ?g (e # map (\<lambda>i. i + nat (mbc self)) js)"
      using second that by blast
    then show ?thesis by (simp add: nd_at_def o_def)
  qed
  ultimately show ?thesis unfolding both by simp
qed

theorem set_global_q_of_append_ghost_cells_interior_witness:
  "mbc ex_solver = 1 \<and>
   ndim (grid ex_state_1d) = 1 \<and> ng (grid ex_state_1d) = [2] \<and> meqn ex_state_1d = 2 \<and>
   q_da ex_state_1d (gqVec ex_state_1d) (lqVec ex_state_1d) = [7, 7, 1, 2, 3, 4, 9, 9] \<and>
   outcome (set_global_q_of_append_ghost_cells ex_solver ex_state_1d) = Returned () \<and>
   shape (q (post (set_global_q_of_append_ghost_cells ex_solver ex_state_1d))) = [2, 2] \<and>
   nd_at (q (post (set_global_q_of_append_ghost_cells ex_solver ex_state_1d))) [0, 1] = 3 \<and>
   ndim (grid ex_state_2d) = 2 \<and> ng (grid ex_state_2d) = [2, 1] \<and> meqn ex_state_2d = 1 \<and>
   q_da ex_state_2d (gqVec ex_state_2d) (lqVec ex_state_2d) =
     [0, 1, 2, 3, 4, 5, 6, 7, 8, 9, 10, 11] \<and>
   outcome (set_global_q_of_append_ghost_cells ex_solver ex_state_2d) = Returned () \<and>
   shape (q (post (set_global_q_of_append_ghost_cells ex_solver ex_state_2d))) = [1, 2, 1] \<and>
   nd_at (q (post (set_global_q_of_append_ghost_cells ex_solver ex_state_2d))) [0, 1, 0] = 6"
proof -
  have h1: "int (length (q_da ex_state_1d (gqVec ex_state_1d) (lqVec ex_state_1d))) =
      meqn ex_state_1d * prod_list (map (\<lambda>n. n + 2 * mbc ex_solver) (ng (grid ex_state_1d)))"
    by (simp add: ex_state_1d_def ex_solver_def)
  have h3: "\<forall>n\<in>set (ng (grid ex_state_1d)). 0 \<le> n" by (simp add: ex_state_1d_def)
  have h4: "1 \<le> mbc ex_solver" by (simp add: ex_solver_def)
  have h5: "ndim (grid ex_state_1d) = 1 \<and> length (ng (grid ex_state_1d)) = 1 \<or>
      ndim (grid ex_state_1d) = 2 \<and> length (ng (grid ex_state_1d)) = 2"
    by (simp add: ex_state_1d_def)
  note r = set_global_q_of_append_ghost_cells_interior [OF h1 h3 h4 h5]
  have shape: "shape (q (post (set_global_q_of_append_ghost_cells ex_solver ex_state_1d))) =
      [2, 2]"
    using r by (simp add: ex_state_1d_def map_eq_Cons_conv)
  have "nd_at (q (post (set_global_q_of_append_ghost_cells ex_solver ex_state_1d))) [0, 1] =
      q_da ex_state_1d (gqVec ex_state_1d) (lqVec ex_state_1d) !
        offset_F (nat (meqn ex_state_1d) #
            map (\<lambda>n. nat (n + 2 * mbc ex_solver)) (ng (grid ex_state_1d)))
          [0, 1 + nat (mbc ex_solver)]"
    using r shape by simp
  also have "\<dots> = 3"
    by (simp add: ex_state_1d_def ex_solver_def)
  finally have one:
      "outcome (set_global_q_of_append_ghost_cells ex_solver ex_state_1d) = Returned () \<and>
      shape (q (post (set_global_q_of_append_ghost_cells ex_solver ex_state_1d))) = [2, 2] \<and>
      nd_at (q (post (set_global_q_of_append_ghost_cells ex_solver ex_state_1d))) [0, 1] = 3"
    using r shape by simp
  have k1: "int (length (q_da ex_state_2d (gqVec ex_state_2d) (lqVec ex_state_2d))) =
      meqn ex_state_2d * prod_list (map (\<lambda>n. n + 2 * mbc ex_solver) (ng (grid ex_state_2d)))"
    by (simp add: ex_state_2d_def ex_solver_def)
  have k3: "\<forall>n\<in>set (ng (grid ex_state_2d)). 0 \<le> n" by (simp add: ex_state_2d_def)
  have k5: "ndim (grid ex_state_2d) = 1 \<and> length (ng (grid ex_state_2d)) = 1 \<or>
      ndim (grid ex_state_2d) = 2 \<and> length (ng (grid ex_state_2d)) = 2"
    by (simp add: ex_state_2d_def)
  note r2 = set_global_q_of_append_ghost_cells_interior [OF k1 k3 h4 k5]
  have shape2: "shape (q (post (set_global_q_of_append_ghost_cells ex_solver ex_state_2d))) =
      [1, 2, 1]"
    using r2 by (simp add: ex_state_2d_def map_eq_Cons_conv)
  have "nd_at (q (post (set_global_q_of_append_ghost_cells ex_solver ex_state_2d)))
        [0, 1, 0] =
      q_da ex_state_2d (gqVec ex_state_2d) (lqVec ex_state_2d) !
        offset_F (nat (meqn ex_state_2d) #
            map (\<lambda>n. nat (n + 2 * mbc ex_solver)) (ng (grid ex_state_2d)))
          [0, 1 + nat (mbc ex_solver), 0 + nat (mbc ex_solver)]"
    using r2 shape2 by simp
  also have "\<dots> = 6"
    by (simp add: ex_state_2d_def ex_solver_def)
  finally have two:
      "outcome (set_global_q_of_append_ghost_cells ex_solver ex_state_2d) = Returned () \<and>
      shape (q (post (set_global_q_of_append_ghost_cells ex_solver ex_state_2d))) =
        [1, 2, 1] \<and>
      nd_at (q (post (set_global_q_of_append_ghost_cells ex_solver ex_state_2d)))
        [0, 1, 0] = 6"
    using r2 shape2 by simp
  from one two show ?thesis
    by (simp add: ex_state_1d_def ex_state_2d_def ex_solver_def)
qed

text \<open>
  C5 as stated fails for a state whose local vector was laid out for another stencil
  width: on the 2D example state, whose local vector has the twelve entries of stencil
  width 1, a solver with \<open>mbc = 2\<close> ends the call with numpy's \<open>ValueError\<close>, and
  \<open>state.q\<close> keeps the value it had.
\<close>

theorem set_global_q_of_append_ghost_cells_counterexample:
  "ndim (grid ex_state_2d) = 2 \<and> mbc (ex_solver\<lparr>mbc := 2\<rparr>) = 2 \<and>
   outcome (set_global_q_of_append_ghost_cells (ex_solver\<lparr>mbc := 2\<rparr>) ex_state_2d) =
     Raised ValueError \<and>
   q (post (set_global_q_of_append_ghost_cells (ex_solver\<lparr>mbc := 2\<rparr>) ex_state_2d)) =
     q ex_state_2d"
proof -
  have "reshape_F (q_da ex_state_2d (gqVec ex_state_2d) (lqVec ex_state_2d))
     (meqn ex_state_2d # map (\<lambda>n. n + 2 * mbc (ex_solver\<lparr>mbc := 2\<rparr>)) (ng (grid ex_state_2d)))
     = Inl ValueError"
    by (simp add: reshape_F_def ex_state_2d_def)
  from append_ghost_cells_raise [OF this] show ?thesis
    by (simp add: set_global_q_of_append_ghost_cells_def ex_state_2d_def)
qed

text \<open>
  C6, as the code has it; one \<open>mbc\<close>, that of the solver, is the margin in each part.
  \<^item> When the local vector fits the ghosted shape (as for C3), the arrays that
    \<open>append_ghost_cells\<close> and \<open>append_ghost_cells_to_aux\<close> return have
    \<open>grid.ng[d] + 2 * mbc\<close> cells in every spatial dimension \<open>d\<close>.
  \<^item> On a 1D grid with \<open>mbc\<close> at least 1, \<open>set_global_q\<close> removes \<open>mbc\<close> cells at
    each end of any array that has at least \<open>2 * mbc\<close> cells.
  \<^item> On a 2D grid with \<open>mbc\<close> at least 0, of any array that has at least
    \<open>grid.ng[d] + mbc\<close> cells in each spatial dimension \<open>d\<close>, \<open>set_global_q\<close>
    removes \<open>mbc\<close> cells at the low end of each spatial dimension and keeps the next
    \<open>grid.ng[d]\<close> cells; the cells it removes at the high end are \<open>mbc\<close> exactly
    when the array has \<open>grid.ng[d] + 2 * mbc\<close> cells in that dimension.
\<close>

theorem ghost_margin_is_mbc:
  "((\<forall>n\<in>set (ng (grid state)). 0 \<le> n + 2 * mbc self) \<longrightarrow>
      (0 \<le> meqn state \<longrightarrow>
       int (length (q_da state (gqVec state) (lqVec state))) =
         meqn state * prod_list (map (\<lambda>n. n + 2 * mbc self) (ng (grid state))) \<longrightarrow>
       (\<exists>g. outcome (append_ghost_cells self state) = Returned g \<and>
          length (shape g) = Suc (length (ng (grid state))) \<and>
          (\<forall>d<length (ng (grid state)).
             int (shape g ! Suc d) = ng (grid state) ! d + 2 * mbc self))) \<and>
      (0 \<le> maux state \<longrightarrow>
       int (length (aux_da state (gauxVec state) (lauxVec state))) =
         maux state * prod_list (map (\<lambda>n. n + 2 * mbc self) (ng (grid state))) \<longrightarrow>
       (\<exists>g. outcome (append_ghost_cells_to_aux self state) = Returned g \<and>
          length (shape g) = Suc (length (ng (grid state))) \<and>
          (\<forall>d<length (ng (grid state)).
             int (shape g ! Suc d) = ng (grid state) ! d + 2 * mbc self)))) \<and>
   (ndim (grid state) = 1 \<longrightarrow> 1 \<le> mbc self \<longrightarrow> shape ghosted_q = [m, N] \<longrightarrow>
      2 * mbc self \<le> int N \<longrightarrow>
      outcome (set_global_q self state ghosted_q) = Returned () \<and>
      shape (q (post (set_global_q self state ghosted_q))) = [m, N - 2 * nat (mbc self)] \<and>
      (\<forall>e i. e < m \<longrightarrow> i < N - 2 * nat (mbc self) \<longrightarrow>
         nd_at (q (post (set_global_q self state ghosted_q))) [e, i] =
         nd_at ghosted_q [e, i + nat (mbc self)])) \<and>
   (ndim (grid state) = 2 \<longrightarrow> 0 \<le> mbc self \<longrightarrow> ng (grid state) = [int mx, int my] \<longrightarrow>
      shape ghosted_q = [m, N1, N2] \<longrightarrow>
      int mx + mbc self \<le> int N1 \<longrightarrow> int my + mbc self \<le> int N2 \<longrightarrow>
      outcome (set_global_q self state ghosted_q) = Returned () \<and>
      shape (q (post (set_global_q self state ghosted_q))) = [m, mx, my] \<and>
      (\<forall>e i j. e < m \<longrightarrow> i < mx \<longrightarrow> j < my \<longrightarrow>
         nd_at (q (post (set_global_q self state ghosted_q))) [e, i, j] =
         nd_at ghosted_q [e, i + nat (mbc self), j + nat (mbc self)]) \<and>
      (shape ghosted_q ! 1 -
           (nat (mbc self) + shape (q (post (set_global_q self state ghosted_q))) ! 1) =
           nat (mbc self) \<longleftrightarrow>
         int (shape ghosted_q ! 1) = ng (grid state) ! 0 + 2 * mbc self) \<and>
      (shape ghosted_q ! 2 -
           (nat (mbc self) + shape (q (post (set_global_q self state ghosted_q))) ! 2) =
           nat (mbc self) \<longleftrightarrow>
         int (shape ghosted_q ! 2) = ng (grid state) ! 1 + 2 * mbc self))"
proof (intro conjI impI)
  let ?dims = "meqn state # map (\<lambda>n. n + 2 * mbc self) (ng (grid state))"
  let ?lq = "q_da state (gqVec state) (lqVec state)"
  assume pad: "\<forall>n\<in>set (ng (grid state)). 0 \<le> n + 2 * mbc self" and m: "0 \<le> meqn state"
    and len: "int (length ?lq) =
      meqn state * prod_list (map (\<lambda>n. n + 2 * mbc self) (ng (grid state)))"
  have nonneg: "\<forall>d\<in>set ?dims. 0 \<le> d" using pad m by auto
  have "reshape_F ?lq ?dims = Inr \<lparr>shape = map nat ?dims, buf = ?lq\<rparr>"
    using nonneg len by (intro reshape_F_fits) simp_all
  from append_ghost_cells_ok [OF this]
  have "outcome (append_ghost_cells self state) = Returned \<lparr>shape = map nat ?dims, buf = ?lq\<rparr>"
    by simp
  moreover have "int (map nat ?dims ! Suc d) = ng (grid state) ! d + 2 * mbc self"
    if "d < length (ng (grid state))" for d
    using that pad by simp
  ultimately show "\<exists>g. outcome (append_ghost_cells self state) = Returned g \<and>
      length (shape g) = Suc (length (ng (grid state))) \<and>
      (\<forall>d<length (ng (grid state)).
         int (shape g ! Suc d) = ng (grid state) ! d + 2 * mbc self)"
    by simp
next
  let ?dims = "maux state # map (\<lambda>n. n + 2 * mbc self) (ng (grid state))"
  let ?la = "aux_da state (gauxVec state) (lauxVec state)"
  assume pad: "\<forall>n\<in>set (ng (grid state)). 0 \<le> n + 2 * mbc self" and m: "0 \<le> maux state"
    and len: "int (length ?la) =
      maux state * prod_list (map (\<lambda>n. n + 2 * mbc self) (ng (grid state)))"
  have nonneg: "\<forall>d\<in>set ?dims. 0 \<le> d" using pad m by auto
  have "reshape_F ?la ?dims = Inr \<lparr>shape = map nat ?dims, buf = ?la\<rparr>"
    using nonneg len by (intro reshape_F_fits) simp_all
  from append_ghost_cells_to_aux_ok [OF this]
  have "outcome (append_ghost_cells_to_aux self state) =
      Returned \<lparr>shape = map nat ?dims, buf = ?la\<rparr>"
    by simp
  moreover have "int (map nat ?dims ! Suc d) = ng (grid state) ! d + 2 * mbc self"
    if "d < length (ng (grid state))" for d
    using that pad by simp
  ultimately show "\<exists>g. outcome (append_ghost_cells_to_aux self state) = Returned g \<and>
      length (shape g) = Suc (length (ng (grid state))) \<and>
      (\<forall>d<length (ng (grid state)).
         int (shape g ! Suc d) = ng (grid state) ! d + 2 * mbc self)"
    by simp
next
  assume d: "ndim (grid state) = 1" and c: "1 \<le> mbc self" and g: "shape ghosted_q = [m, N]"
    and N: "2 * mbc self \<le> int N"
  have w: "N - nat (mbc self) - nat (mbc self) = N - 2 * nat (mbc self)" by simp
  note run = set_global_q_1d_keeps [OF d g c N]
  show "outcome (set_global_q self state ghosted_q) = Returned ()"
    by (simp add: run)
  show "shape (q (post (set_global_q self state ghosted_q))) = [m, N - 2 * nat (mbc self)]"
    by (simp add: run)
  show "\<forall>e i. e < m \<longrightarrow> i < N - 2 * nat (mbc self) \<longrightarrow>
      nd_at (q (post (set_global_q self state ghosted_q))) [e, i] =
      nd_at ghosted_q [e, i + nat (mbc self)]"
  proof (intro allI impI)
    fix e i assume "e < m" and "i < N - 2 * nat (mbc self)"
    then show "nd_at (q (post (set_global_q self state ghosted_q))) [e, i] =
        nd_at ghosted_q [e, i + nat (mbc self)]"
      using nd_at_selection_2 [of "N - nat (mbc self) - nat (mbc self)" "N - nat (mbc self)"
          "nat (mbc self)" e m i "buf ghosted_q" N] g
      by (simp add: run nd_at_def)
  qed
next
  assume d: "ndim (grid state) = 2" and c: "0 \<le> mbc self"
    and ng: "ng (grid state) = [int mx, int my]" and g: "shape ghosted_q = [m, N1, N2]"
    and N1: "int mx + mbc self \<le> int N1" and N2: "int my + mbc self \<le> int N2"
  have run: "set_global_q self state ghosted_q =
      \<lparr>calls = [Call_getitem], outcome = Returned (),
       post = state\<lparr>q := \<lparr>shape = [m, mx, my],
         buf = map (\<lambda>k. buf ghosted_q ! k)
           (offsets_F [m, N1, N2] [(0, m), (nat (mbc self), nat (mbc self) + mx),
              (nat (mbc self), nat (mbc self) + my)])\<rparr>\<rparr>\<rparr>"
    using set_global_q_2d_keeps [OF d ng g c _ _ N1 N2] by simp
  show "outcome (set_global_q self state ghosted_q) = Returned ()"
    by (simp add: run)
  show "shape (q (post (set_global_q self state ghosted_q))) = [m, mx, my]"
    by (simp add: run)
  show "\<forall>e i j. e < m \<longrightarrow> i < mx \<longrightarrow> j < my \<longrightarrow>
      nd_at (q (post (set_global_q self state ghosted_q))) [e, i, j] =
      nd_at ghosted_q [e, i + nat (mbc self), j + nat (mbc self)]"
  proof (intro allI impI)
    fix e i j assume "e < m" and "i < mx" and "j < my"
    then show "nd_at (q (post (set_global_q self state ghosted_q))) [e, i, j] =
        nd_at ghosted_q [e, i + nat (mbc self), j + nat (mbc self)]"
      using nd_at_selection_3 [of mx "nat (mbc self) + mx" "nat (mbc self)"
          my "nat (mbc self) + my" "nat (mbc self)" e m i j "buf ghosted_q" N1 N2] g
      by (simp add: run nd_at_def)
  qed
  have high1: "N1 - (nat (mbc self) + mx) = nat (mbc self) \<longleftrightarrow>
      int N1 = int mx + 2 * mbc self"
    using c N1 by linarith
  have high2: "N2 - (nat (mbc self) + my) = nat (mbc self) \<longleftrightarrow>
      int N2 = int my + 2 * mbc self"
    using c N2 by linarith
  show "shape ghosted_q ! 1 -
        (nat (mbc self) + shape (q (post (set_global_q self state ghosted_q))) ! 1) =
        nat (mbc self) \<longleftrightarrow>
      int (shape ghosted_q ! 1) = ng (grid state) ! 0 + 2 * mbc self"
    using high1 by (simp add: run g ng)
  show "shape ghosted_q ! 2 -
        (nat (mbc self) + shape (q (post (set_global_q self state ghosted_q))) ! 2) =
        nat (mbc self) \<longleftrightarrow>
      int (shape ghosted_q ! 2) = ng (grid state) ! 1 + 2 * mbc self"
    using high2 by (simp add: run g ng)
qed

theorem ghost_margin_is_mbc_witness:
  "mbc ex_solver = 1 \<and> ng (grid ex_state_1d) = [2] \<and> ng (grid ex_state_2d) = [2, 1] \<and>
   (\<exists>g. outcome (append_ghost_cells ex_solver ex_state_1d) = Returned g \<and>
      int (shape g ! Suc 0) = 2 + 2 * 1) \<and>
   (\<exists>g. outcome (append_ghost_cells_to_aux ex_solver ex_state_1d) = Returned g \<and>
      int (shape g ! Suc 0) = 2 + 2 * 1) \<and>
   shape ex_ghosted_1d = [2, 4] \<and>
   shape (q (post (set_global_q ex_solver ex_state_1d ex_ghosted_1d))) = [2, 2] \<and>
   nd_at (q (post (set_global_q ex_solver ex_state_1d ex_ghosted_1d))) [1, 1] = 4 \<and>
   shape ex_ghosted_2d = [1, 4, 3] \<and>
   shape (q (post (set_global_q ex_solver ex_state_2d ex_ghosted_2d))) = [1, 2, 1] \<and>
   nd_at (q (post (set_global_q ex_solver ex_state_2d ex_ghosted_2d))) [0, 1, 0] = 6"
proof -
  have c: "mbc ex_solver = 1" by (simp add: ex_solver_def)
  have ng1: "ng (grid ex_state_1d) = [2]" by (simp add: ex_state_1d_def)
  have ng2: "ng (grid ex_state_2d) = [int 2, int 1]" by (simp add: ex_state_2d_def)
  have pad: "\<forall>n\<in>set (ng (grid ex_state_1d)). 0 \<le> n + 2 * mbc ex_solver"
    by (simp add: ng1 c)
  have m: "0 \<le> meqn ex_state_1d" and ma: "0 \<le> maux ex_state_1d"
    by (simp_all add: ex_state_1d_def)
  have fit: "int (length (q_da ex_state_1d (gqVec ex_state_1d) (lqVec ex_state_1d))) =
      meqn ex_state_1d * prod_list (map (\<lambda>n. n + 2 * mbc ex_solver) (ng (grid ex_state_1d)))"
    by (simp add: ex_state_1d_def ex_solver_def)
  have fita: "int (length (aux_da ex_state_1d (gauxVec ex_state_1d) (lauxVec ex_state_1d))) =
      maux ex_state_1d * prod_list (map (\<lambda>n. n + 2 * mbc ex_solver) (ng (grid ex_state_1d)))"
    by (simp add: ex_state_1d_def ex_solver_def)
  have d1: "ndim (grid ex_state_1d) = 1" by (simp add: ex_state_1d_def)
  have d2: "ndim (grid ex_state_2d) = 2" by (simp add: ex_state_2d_def)
  have g1: "shape ex_ghosted_1d = [2, 4]" by (simp add: ex_ghosted_1d_def)
  have g2: "shape ex_ghosted_2d = [1, 4, 3]" by (simp add: ex_ghosted_2d_def)
  note r1 = ghost_margin_is_mbc [of ex_state_1d ex_solver ex_ghosted_1d 2 4,
      THEN conjunct1, THEN mp, OF pad]
  note r2 = ghost_margin_is_mbc [of ex_state_1d ex_solver ex_ghosted_1d 2 4,
      THEN conjunct2, THEN conjunct1, THEN mp, THEN mp, THEN mp, THEN mp, OF d1 _ g1]
  note r3 = ghost_margin_is_mbc [of ex_state_2d ex_solver ex_ghosted_2d 1 _ 2 1 4 3,
      THEN conjunct2, THEN conjunct2, THEN mp, THEN mp, THEN mp, THEN mp, THEN mp, THEN mp,
      OF d2 _ ng2 g2]
  from r1 [THEN conjunct1, THEN mp, THEN mp, OF m fit]
  have a: "\<exists>g. outcome (append_ghost_cells ex_solver ex_state_1d) = Returned g \<and>
      int (shape g ! Suc 0) = 2 + 2 * 1"
    by (auto simp: ng1 c)
  from r1 [THEN conjunct2, THEN mp, THEN mp, OF ma fita]
  have b: "\<exists>g. outcome (append_ghost_cells_to_aux ex_solver ex_state_1d) = Returned g \<and>
      int (shape g ! Suc 0) = 2 + 2 * 1"
    by (auto simp: ng1 c)
  have s1: "shape (q (post (set_global_q ex_solver ex_state_1d ex_ghosted_1d))) = [2, 2] \<and>
      nd_at (q (post (set_global_q ex_solver ex_state_1d ex_ghosted_1d))) [1, 1] =
        nd_at ex_ghosted_1d [1, 1 + nat (mbc ex_solver)]"
    using r2 by (simp add: c)
  have s2: "shape (q (post (set_global_q ex_solver ex_state_2d ex_ghosted_2d))) = [1, 2, 1] \<and>
      nd_at (q (post (set_global_q ex_solver ex_state_2d ex_ghosted_2d))) [0, 1, 0] =
        nd_at ex_ghosted_2d [0, 1 + nat (mbc ex_solver), 0 + nat (mbc ex_solver)]"
    using r3 by (simp add: c)
  have v1: "nd_at ex_ghosted_1d [1, 1 + nat (mbc ex_solver)] = 4"
    by (simp add: nd_at_def ex_ghosted_1d_def c)
  have v2: "nd_at ex_ghosted_2d [0, 1 + nat (mbc ex_solver), 0 + nat (mbc ex_solver)] = 6"
    by (simp add: nd_at_def ex_ghosted_2d_def c)
  from a b s1 s2 v1 v2 c ng1 ng2 g1 g2 show ?thesis by simp
qed

text \<open>
  C6 as stated fails for \<open>set_global_q\<close> on a 2D grid: the slices end at
  \<open>grid.ng[d] + mbc\<close>, not \<open>mbc\<close> cells before the end of the array. Of an array
  with six cells in the first spatial dimension, on a grid of two cells with
  \<open>mbc = 1\<close>, two cells are kept: one is removed at the low end and three at the high
  end.
\<close>

theorem ghost_margin_is_mbc_counterexample:
  "mbc ex_solver = 1 \<and> ndim (grid ex_state_2d) = 2 \<and> ng (grid ex_state_2d) = [2, 1] \<and>
   shape ex_ghosted_wide = [1, 6, 3] \<and>
   outcome (set_global_q ex_solver ex_state_2d ex_ghosted_wide) = Returned () \<and>
   shape (q (post (set_global_q ex_solver ex_state_2d ex_ghosted_wide))) = [1, 2, 1] \<and>
   nd_at (q (post (set_global_q ex_solver ex_state_2d ex_ghosted_wide))) [0, 1, 0] =
     nd_at ex_ghosted_wide [0, 2, 1]"
proof -
  have c: "mbc ex_solver = 1" by (simp add: ex_solver_def)
  have d: "ndim (grid ex_state_2d) = 2" by (simp add: ex_state_2d_def)
  have ng: "ng (grid ex_state_2d) = [2, 1]" by (simp add: ex_state_2d_def)
  have g: "shape ex_ghosted_wide = [1, 6, 3]" by (simp add: ex_ghosted_wide_def)
  have run: "set_global_q ex_solver ex_state_2d ex_ghosted_wide =
      \<lparr>calls = [Call_getitem], outcome = Returned (),
       post = ex_state_2d\<lparr>q := \<lparr>shape = [1, nat 2, nat 1],
         buf = map (\<lambda>k. buf ex_ghosted_wide ! k)
           (offsets_F [1, 6, 3] [(0, 1), (nat (mbc ex_solver), nat (mbc ex_solver) + nat 2),
              (nat (mbc ex_solver), nat (mbc ex_solver) + nat 1)])\<rparr>\<rparr>\<rparr>"
    by (rule set_global_q_2d_keeps [OF d ng g]) (simp_all add: c)
  have "nd_at \<lparr>shape = [1, nat 2, nat 1],
         buf = map (\<lambda>k. buf ex_ghosted_wide ! k)
           (offsets_F [1, 6, 3] [(0, 1), (nat (mbc ex_solver), nat (mbc ex_solver) + nat 2),
              (nat (mbc ex_solver), nat (mbc ex_solver) + nat 1)])\<rparr> [0, 1, 0] =
       buf ex_ghosted_wide ! (0 + 1 * (1 + nat (mbc ex_solver) + 6 * (0 + nat (mbc ex_solver))))"
    by (rule nd_at_selection_3) simp_all
  also have "\<dots> = nd_at ex_ghosted_wide [0, 2, 1]"
    by (simp add: nd_at_def g c)
  finally show ?thesis by (simp add: run c d ng g del: offsets_F.simps)
qed

text \<open>
  C7, as the code has it. In every run, \<open>append_ghost_cells\<close> and
  \<open>append_ghost_cells_to_aux\<close> call \<open>globalToLocal\<close> and \<open>getArray\<close> of PETSc and
  then \<open>reshape\<close> of numpy; \<open>set_global_q\<close> makes no call into PETSc (its only
  library call is the slicing of numpy, at most once); \<open>communicateCFL\<close> calls
  \<open>Vec()\<close>, \<open>createWithArray\<close> and \<open>max\<close> of PETSc when \<open>dt_variable\<close> is set
  and makes no call otherwise.
\<close>

theorem library_calls:
  "calls (append_ghost_cells self state) = [Call_globalToLocal, Call_getArray, Call_reshape] \<and>
   calls (append_ghost_cells_to_aux self state) =
     [Call_globalToLocal, Call_getArray, Call_reshape] \<and>
   filter petsc_call (calls (set_global_q self state ghosted_q)) = [] \<and>
   length (calls (set_global_q self state ghosted_q)) \<le> 1 \<and>
   calls (communicateCFL others self) =
     (if dt_variable self then [Call_Vec, Call_createWithArray, Call_max] else [])"
proof (intro conjI)
  show "calls (append_ghost_cells self state) =
      [Call_globalToLocal, Call_getArray, Call_reshape]"
    by (cases "reshape_F (q_da state (gqVec state) (lqVec state))
          (meqn state # map (\<lambda>n. n + 2 * mbc self) (ng (grid state)))")
       (simp_all add: append_ghost_cells_raise append_ghost_cells_ok)
  show "calls (append_ghost_cells_to_aux self state) =
      [Call_globalToLocal, Call_getArray, Call_reshape]"
    by (cases "reshape_F (aux_da state (gauxVec state) (lauxVec state))
          (maux state # map (\<lambda>n. n + 2 * mbc self) (ng (grid state)))")
       (simp_all add: append_ghost_cells_to_aux_raise append_ghost_cells_to_aux_ok)
  have "calls (set_global_q self state ghosted_q) = [] \<or>
      calls (set_global_q self state ghosted_q) = [Call_getitem]"
    by (rule set_global_q_calls)
  then show "filter petsc_call (calls (set_global_q self state ghosted_q)) = []"
    and "length (calls (set_global_q self state ghosted_q)) \<le> 1"
    by auto
  show "calls (communicateCFL others self) =
      (if dt_variable self then [Call_Vec, Call_createWithArray, Call_max] else [])"
    by (simp add: communicateCFL_def)
qed

theorem library_calls_witness:
  "dt_variable ex_solver \<and>
   calls (append_ghost_cells ex_solver ex_state_1d) =
     [Call_globalToLocal, Call_getArray, Call_reshape] \<and>
   filter petsc_call (calls (set_global_q ex_solver ex_state_1d ex_ghosted_1d)) = [] \<and>
   calls (communicateCFL [9 / 10] ex_solver) = [Call_Vec, Call_createWithArray, Call_max] \<and>
   calls (communicateCFL [9 / 10] (ex_solver\<lparr>dt_variable := False\<rparr>)) = []"
proof -
  have h: "dt_variable ex_solver" by (simp add: ex_solver_def)
  from library_calls [of ex_solver ex_state_1d ex_ghosted_1d "[9 / 10]"]
    library_calls [of "ex_solver\<lparr>dt_variable := False\<rparr>" ex_state_1d ex_ghosted_1d "[9 / 10]"]
    h
  show ?thesis by simp
qed

text \<open>
  C7 as stated fails: one run of \<open>append_ghost_cells\<close> makes three library calls, two
  of them into PETSc, and one run of \<open>set_global_q\<close> makes none into PETSc.
\<close>

theorem library_calls_counterexample:
  "length (calls (append_ghost_cells ex_solver ex_state_1d)) = 3 \<and>
   length (filter petsc_call (calls (append_ghost_cells ex_solver ex_state_1d))) = 2 \<and>
   length (filter petsc_call (calls (set_global_q ex_solver ex_state_1d ex_ghosted_1d))) = 0 \<and>
   dt_variable ex_solver \<and>
   length (calls (communicateCFL [9 / 10] ex_solver)) = 3"
proof -
  have "reshape_F (q_da ex_state_1d (gqVec ex_state_1d) (lqVec ex_state_1d))
      (meqn ex_state_1d # map (\<lambda>n. n + 2 * mbc ex_solver) (ng (grid ex_state_1d))) =
      Inr \<lparr>shape = [2, 4], buf = [7, 7, 1, 2, 3, 4, 9, 9]\<rparr>"
    by (simp add: reshape_F_def ex_state_1d_def ex_solver_def)
  from append_ghost_cells_ok [OF this]
  have a: "calls (append_ghost_cells ex_solver ex_state_1d) =
      [Call_globalToLocal, Call_getArray, Call_reshape]" by simp
  have "calls (set_global_q ex_solver ex_state_1d ex_ghosted_1d) = [] \<or>
      calls (set_global_q ex_solver ex_state_1d ex_ghosted_1d) = [Call_getitem]"
    by (rule set_global_q_calls)
  then have b: "filter petsc_call (calls (set_global_q ex_solver ex_state_1d ex_ghosted_1d)) = []"
    by auto
  have c: "dt_variable ex_solver \<and> length (calls (communicateCFL [9 / 10] ex_solver)) = 3"
    by (simp add: communicateCFL_def ex_solver_def)
  from a b c show ?thesis by simp
qed

text \<open>
  C8, as the code has it. Let \<open>solutions['n'].states[0]\<close> exist and be \<open>state\<close>.
  \<^item> For a \<open>time_integrator\<close> other than \<open>'Euler'\<close>, \<open>'SSP33'\<close> and \<open>'SSP104'\<close>,
    \<open>allocate_rk_stages\<close> ends with the error of an unbound local variable, after it
    has set \<open>self.rk_stages\<close> to the empty list; nothing else of the solver changes.
  \<^item> For these three values it returns and sets \<open>self.rk_stages\<close> to a list of 0, 1
    and 2 states. Each of them has \<open>aux_global\<close> and \<open>t\<close> of \<open>state\<close>, which are
    assigned after \<open>set_stencil_width\<close>, and has \<open>meqn\<close> and \<open>maux\<close> of \<open>state\<close>
    when \<open>set_stencil_width\<close> keeps these two attributes, which are assigned before
    it.
\<close>

theorem allocate_rk_stages_registers:
  assumes "solutions ''n'' = Some sol" and "states sol = state # rest"
  shows "(time_integrator self \<noteq> ''Euler'' \<and> time_integrator self \<noteq> ''SSP33'' \<and>
        time_integrator self \<noteq> ''SSP104'' \<longrightarrow>
      allocate_rk_stages cls self solutions =
        (Raised UnboundLocalError, self\<lparr>rk_stages := []\<rparr>)) \<and>
    (time_integrator self = ''Euler'' \<or> time_integrator self = ''SSP33'' \<or>
        time_integrator self = ''SSP104'' \<longrightarrow>
      fst (allocate_rk_stages cls self solutions) = Returned () \<and>
      snd (allocate_rk_stages cls self solutions) =
        self\<lparr>rk_stages := rk_stages (snd (allocate_rk_stages cls self solutions))\<rparr> \<and>
      length (rk_stages (snd (allocate_rk_stages cls self solutions))) =
        (if time_integrator self = ''Euler'' then 0
         else if time_integrator self = ''SSP33'' then 1 else 2) \<and>
      (\<forall>r\<in>set (rk_stages (snd (allocate_rk_stages cls self solutions))).
         aux_global r = aux_global state \<and> t r = t state \<and>
         ((\<forall>w s. meqn (set_stencil_width cls w s) = meqn s \<and>
                 maux (set_stencil_width cls w s) = maux s) \<longrightarrow>
          meqn r = meqn state \<and> maux r = maux state)))"
proof (intro conjI impI)
  assume "time_integrator self \<noteq> ''Euler'' \<and> time_integrator self \<noteq> ''SSP33'' \<and>
      time_integrator self \<noteq> ''SSP104''"
  then have "nregisters_of (time_integrator self) = None"
    by (simp add: nregisters_of_def)
  with assms show "allocate_rk_stages cls self solutions =
      (Raised UnboundLocalError, self\<lparr>rk_stages := []\<rparr>)"
    by (rule allocate_rk_stages_unbound [where solutions = solutions and sol = sol])
next
  assume ti: "time_integrator self = ''Euler'' \<or> time_integrator self = ''SSP33'' \<or>
      time_integrator self = ''SSP104''"
  define k :: int where "k = (if time_integrator self = ''Euler'' then 1
     else if time_integrator self = ''SSP33'' then 2 else 3)"
  have "nregisters_of (time_integrator self) = Some k"
    using ti by (auto simp: nregisters_of_def k_def)
  note run = allocate_rk_stages_returns [where solutions = solutions and sol = sol
      and cls = cls, OF assms this]
  show "fst (allocate_rk_stages cls self solutions) = Returned ()"
    by (simp add: run)
  show "snd (allocate_rk_stages cls self solutions) =
      self\<lparr>rk_stages := rk_stages (snd (allocate_rk_stages cls self solutions))\<rparr>"
    by (simp add: run)
  show "length (rk_stages (snd (allocate_rk_stages cls self solutions))) =
      (if time_integrator self = ''Euler'' then 0
       else if time_integrator self = ''SSP33'' then 1 else 2)"
    by (simp add: run k_def)
  show "\<forall>r\<in>set (rk_stages (snd (allocate_rk_stages cls self solutions))).
      aux_global r = aux_global state \<and> t r = t state \<and>
      ((\<forall>w s. meqn (set_stencil_width cls w s) = meqn s \<and>
              maux (set_stencil_width cls w s) = maux s) \<longrightarrow>
       meqn r = meqn state \<and> maux r = maux state)"
    by (simp add: run)
qed

theorem allocate_rk_stages_registers_witness:
  "time_integrator ex_solver = ''SSP33'' \<and>
   fst (allocate_rk_stages ex_State_class ex_solver ex_solutions) = Returned () \<and>
   length (rk_stages (snd (allocate_rk_stages ex_State_class ex_solver ex_solutions))) = 1 \<and>
   meqn (hd (rk_stages (snd (allocate_rk_stages ex_State_class ex_solver ex_solutions)))) = 2 \<and>
   t (hd (rk_stages (snd (allocate_rk_stages ex_State_class ex_solver ex_solutions)))) = 0 \<and>
   time_integrator (ex_solver\<lparr>time_integrator := ''RK4''\<rparr>) = ''RK4'' \<and>
   fst (allocate_rk_stages ex_State_class (ex_solver\<lparr>time_integrator := ''RK4''\<rparr>)
     ex_solutions) = Raised UnboundLocalError"
proof -
  have h1: "ex_solutions ''n'' = Some \<lparr>states = [ex_state_1d]\<rparr>"
    by (simp add: ex_solutions_def)
  have h2: "states \<lparr>states = [ex_state_1d]\<rparr> = ex_state_1d # []" by simp
  have ti: "time_integrator ex_solver = ''SSP33''" by (simp add: ex_solver_def)
  have frame: "\<forall>w s. meqn (set_stencil_width ex_State_class w s) = meqn s \<and>
      maux (set_stencil_width ex_State_class w s) = maux s"
    by (simp add: ex_State_class_def)
  note r = allocate_rk_stages_registers [where solutions = ex_solutions
      and sol = "\<lparr>states = [ex_state_1d]\<rparr>" and self = ex_solver and cls = ex_State_class,
      OF h1 h2, THEN conjunct2, THEN mp]
  have a: "fst (allocate_rk_stages ex_State_class ex_solver ex_solutions) = Returned ()"
    and len: "length (rk_stages (snd (allocate_rk_stages ex_State_class ex_solver
      ex_solutions))) = 1"
    and all: "\<forall>r\<in>set (rk_stages (snd (allocate_rk_stages ex_State_class ex_solver
      ex_solutions))). aux_global r = aux_global ex_state_1d \<and> t r = t ex_state_1d \<and>
        ((\<forall>w s. meqn (set_stencil_width ex_State_class w s) = meqn s \<and>
              maux (set_stencil_width ex_State_class w s) = maux s) \<longrightarrow>
         meqn r = meqn ex_state_1d \<and> maux r = maux ex_state_1d)"
    using r ti by simp_all
  from len have "hd (rk_stages (snd (allocate_rk_stages ex_State_class ex_solver
      ex_solutions))) \<in> set (rk_stages (snd (allocate_rk_stages ex_State_class ex_solver
      ex_solutions)))"
    by (intro hd_in_set) auto
  with all frame
  have b: "meqn (hd (rk_stages (snd (allocate_rk_stages ex_State_class ex_solver
      ex_solutions)))) = meqn ex_state_1d \<and>
      t (hd (rk_stages (snd (allocate_rk_stages ex_State_class ex_solver
      ex_solutions)))) = t ex_state_1d"
    by blast
  have c: "fst (allocate_rk_stages ex_State_class (ex_solver\<lparr>time_integrator := ''RK4''\<rparr>)
     ex_solutions) = Raised UnboundLocalError"
    using allocate_rk_stages_registers [where solutions = ex_solutions
        and sol = "\<lparr>states = [ex_state_1d]\<rparr>"
        and self = "ex_solver\<lparr>time_integrator := ''RK4''\<rparr>" and cls = ex_State_class,
        OF h1 h2, THEN conjunct1]
    by simp
  from a len b c ti show ?thesis by (simp add: ex_state_1d_def)
qed

text \<open>
  C8 as stated fails on its first part: the assignment \<open>self.rk_stages = []\<close> comes
  before the loop header that reads \<open>nregisters\<close>, so a solver that held one stage
  holds none when the error of the unbound local variable is raised.
\<close>

theorem allocate_rk_stages_registers_counterexample:
  "rk_stages (ex_solver\<lparr>time_integrator := ''RK4'', rk_stages := [ex_state_1d]\<rparr>) =
     [ex_state_1d] \<and>
   fst (allocate_rk_stages ex_State_class
     (ex_solver\<lparr>time_integrator := ''RK4'', rk_stages := [ex_state_1d]\<rparr>) ex_solutions) =
     Raised UnboundLocalError \<and>
   rk_stages (snd (allocate_rk_stages ex_State_class
     (ex_solver\<lparr>time_integrator := ''RK4'', rk_stages := [ex_state_1d]\<rparr>) ex_solutions)) = []"
proof -
  have h1: "ex_solutions ''n'' = Some \<lparr>states = [ex_state_1d]\<rparr>"
    by (simp add: ex_solutions_def)
  have h2: "states \<lparr>states = [ex_state_1d]\<rparr> = ex_state_1d # []" by simp
  have h3: "nregisters_of (time_integrator
      (ex_solver\<lparr>time_integrator := ''RK4'', rk_stages := [ex_state_1d]\<rparr>)) = None"
    by (simp add: nregisters_of_def)
  from allocate_rk_stages_unbound [where solutions = ex_solutions
      and sol = "\<lparr>states = [ex_state_1d]\<rparr>" and cls = ex_State_class, OF h1 h2 h3]
  show ?thesis by simp
qed

text \<open>
  C9. With \<open>mbc = 0\<close>, on a 1D grid \<open>set_global_q\<close> assigns \<open>ghosted_q[:, 0:0]\<close>,
  an array without cells, to \<open>state.q\<close> (for every array with the two dimensions that
  the slicing needs); on a 2D grid it assigns \<open>ghosted_q[:, 0:mx, 0:my]\<close>, which for
  a ghosted array of \<open>mx\<close> by \<open>my\<close> cells is the whole array.
\<close>

theorem set_global_q_without_ghost_cells:
  assumes "mbc self = 0"
  shows "(ndim (grid state) = 1 \<longrightarrow> 2 \<le> length (shape ghosted_q) \<longrightarrow>
      outcome (set_global_q self state ghosted_q) = Returned () \<and>
      getitem ghosted_q [Slice None None, Slice (Some 0) (Some 0)] =
        Inr (q (post (set_global_q self state ghosted_q))) \<and>
      shape (q (post (set_global_q self state ghosted_q))) = (shape ghosted_q)[1 := 0] \<and>
      buf (q (post (set_global_q self state ghosted_q))) = []) \<and>
    (ndim (grid state) = 2 \<longrightarrow> ng (grid state) = mx # my # ns \<longrightarrow>
      3 \<le> length (shape ghosted_q) \<longrightarrow>
      outcome (set_global_q self state ghosted_q) = Returned () \<and>
      getitem ghosted_q [Slice None None, Slice (Some 0) (Some mx), Slice (Some 0) (Some my)] =
        Inr (q (post (set_global_q self state ghosted_q))) \<and>
      (well_formed ghosted_q \<longrightarrow> map int (shape ghosted_q) = [int m, mx, my] \<longrightarrow>
         q (post (set_global_q self state ghosted_q)) = ghosted_q))"
proof (intro conjI impI)
  assume d: "ndim (grid state) = 1" and "2 \<le> length (shape ghosted_q)"
  then obtain m' N rest where g: "shape ghosted_q = m' # N # rest"
    by (cases "shape ghosted_q"; cases "tl (shape ghosted_q)") auto
  have sel: "getitem ghosted_q [Slice None None, Slice (Some 0) (Some 0)] =
      Inr \<lparr>shape = m' # 0 # rest, buf = []\<rparr>"
    using g by (rule getitem_empty_axis)
  then have "getitem ghosted_q
      [Slice None None, Slice (Some (mbc self)) (Some (- mbc self))] =
      Inr \<lparr>shape = m' # 0 # rest, buf = []\<rparr>"
    using assms by simp
  from set_global_q_1d_ok [OF d this]
  have run: "set_global_q self state ghosted_q = \<lparr>calls = [Call_getitem],
      outcome = Returned (), post = state\<lparr>q := \<lparr>shape = m' # 0 # rest, buf = []\<rparr>\<rparr>\<rparr>" .
  show "outcome (set_global_q self state ghosted_q) = Returned ()"
    by (simp add: run)
  show "getitem ghosted_q [Slice None None, Slice (Some 0) (Some 0)] =
      Inr (q (post (set_global_q self state ghosted_q)))"
    by (simp add: run sel)
  show "shape (q (post (set_global_q self state ghosted_q))) = (shape ghosted_q)[1 := 0]"
    by (simp add: run g)
  show "buf (q (post (set_global_q self state ghosted_q))) = []"
    by (simp add: run)
next
  assume d: "ndim (grid state) = 2" and ng: "ng (grid state) = mx # my # ns"
    and len: "3 \<le> length (shape ghosted_q)"
  have mx: "list_item (ng (grid state)) 0 = Inr mx"
    and my: "list_item (ng (grid state)) 1 = Inr my"
    using ng by (simp_all add: list_item_def)
  from len obtain a where
    sel: "getitem ghosted_q [Slice None None, Slice (Some 0) (Some mx),
      Slice (Some 0) (Some my)] = Inr a"
    by (auto simp: getitem_def Let_def)
  then have "getitem ghosted_q [Slice None None,
      Slice (Some (mbc self)) (Some (mx + mbc self)),
      Slice (Some (mbc self)) (Some (my + mbc self))] = Inr a"
    using assms by simp
  from set_global_q_2d_ok [OF d mx my this]
  have run: "set_global_q self state ghosted_q = \<lparr>calls = [Call_getitem],
      outcome = Returned (), post = state\<lparr>q := a\<rparr>\<rparr>" .
  show "outcome (set_global_q self state ghosted_q) = Returned ()"
    by (simp add: run)
  show "getitem ghosted_q [Slice None None, Slice (Some 0) (Some mx),
      Slice (Some 0) (Some my)] = Inr (q (post (set_global_q self state ghosted_q)))"
    by (simp add: run sel)
  show "q (post (set_global_q self state ghosted_q)) = ghosted_q"
    if wf: "well_formed ghosted_q" and shp: "map int (shape ghosted_q) = [int m, mx, my]"
  proof -
    from shp have g: "shape ghosted_q = [m, nat mx, nat my]"
      and pos: "0 \<le> mx" "0 \<le> my"
      by (auto simp: map_eq_Cons_conv)
    have whole: "offsets_F [m, nat mx, nat my] [(0, m), (0, nat mx), (0, nat my)] =
        [0..<m * nat mx * nat my]"
      using offsets_F_whole [of "[m, nat mx, nat my]"]
      by (simp add: mult.assoc del: offsets_F.simps)
    have "\<lparr>shape = shape ghosted_q,
        buf = map (\<lambda>k. buf ghosted_q ! k) [0..<prod_list (shape ghosted_q)]\<rparr> = ghosted_q"
      using wf by (intro ndarray_whole) (simp add: well_formed_def)
    then have same: "\<lparr>shape = [m, nat mx, nat my],
        buf = map (\<lambda>k. buf ghosted_q ! k) [0..<m * nat mx * nat my]\<rparr> = ghosted_q"
      using g by (simp add: mult.assoc)
    have "getitem ghosted_q [Slice None None, Slice (Some 0) (Some mx),
        Slice (Some 0) (Some my)] = Inr ghosted_q"
      using whole same pos by (simp add: getitem_3 [OF g] del: offsets_F.simps)
    then have "Inr a = (Inr ghosted_q :: py_error + 'a ndarray)"
      using sel by (simp only:)
    then have "a = ghosted_q" by (simp only: sum.inject)
    then show ?thesis unfolding run by simp
  qed
qed

theorem set_global_q_without_ghost_cells_witness:
  "mbc (ex_solver\<lparr>mbc := 0\<rparr>) = 0 \<and> ndim (grid ex_state_1d) = 1 \<and>
   shape ex_ghosted_1d = [2, 4] \<and>
   shape (q (post (set_global_q (ex_solver\<lparr>mbc := 0\<rparr>) ex_state_1d ex_ghosted_1d))) =
     [2, 0] \<and>
   buf (q (post (set_global_q (ex_solver\<lparr>mbc := 0\<rparr>) ex_state_1d ex_ghosted_1d))) = [] \<and>
   ndim (grid ex_state_2d) = 2 \<and> ng (grid ex_state_2d) = [2, 1] \<and>
   q (post (set_global_q (ex_solver\<lparr>mbc := 0\<rparr>) ex_state_2d
     \<lparr>shape = [1, 2, 1], buf = [5, 6]\<rparr>)) = \<lparr>shape = [1, 2, 1], buf = [5, 6]\<rparr>"
proof -
  have h0: "mbc (ex_solver\<lparr>mbc := 0\<rparr>) = 0" by simp
  have h1: "ndim (grid ex_state_1d) = 1" by (simp add: ex_state_1d_def)
  have h2: "shape ex_ghosted_1d = [2, 4]" by (simp add: ex_ghosted_1d_def)
  then have h2': "2 \<le> length (shape ex_ghosted_1d)" by simp
  have h3: "ndim (grid ex_state_2d) = 2" by (simp add: ex_state_2d_def)
  have h4: "ng (grid ex_state_2d) = 2 # 1 # []" by (simp add: ex_state_2d_def)
  have h5: "3 \<le> length (shape \<lparr>shape = [1, 2, 1], buf = [5, 6 :: int]\<rparr>)" by simp
  have h6: "well_formed \<lparr>shape = [1, 2, 1], buf = [5, 6 :: int]\<rparr>"
    by (simp add: well_formed_def)
  have h7: "map int (shape \<lparr>shape = [1, 2, 1], buf = [5, 6 :: int]\<rparr>) = [int 1, 2, 1]"
    by simp
  note r1 = set_global_q_without_ghost_cells [OF h0, THEN conjunct1, THEN mp, THEN mp,
      OF h1 h2']
  note r2 = set_global_q_without_ghost_cells [OF h0, THEN conjunct2, THEN mp, THEN mp, THEN mp,
      OF h3 h4 h5, THEN conjunct2, THEN conjunct2, THEN mp, THEN mp, OF h6 h7]
  from r1 r2 h0 h1 h2 h3 h4 show ?thesis by simp
qed

text \<open>
  C10. When the grid has neither one nor two dimensions, \<open>set_global_q\<close> raises
  \<open>NotImplementedError\<close> and leaves the state as it was: the raise comes before any
  assignment to the state, so \<open>state.q\<close> keeps its value.
\<close>

theorem set_global_q_raise_keeps_state:
  "ndim (grid state) \<noteq> 1 \<Longrightarrow> ndim (grid state) \<noteq> 2 \<Longrightarrow>
   outcome (set_global_q self state ghosted_q) = Raised NotImplementedError \<and>
   post (set_global_q self state ghosted_q) = state"
  by (simp add: set_global_q_3d)

theorem set_global_q_raise_keeps_state_witness:
  "ndim (grid ex_state_3d) \<noteq> 1 \<and> ndim (grid ex_state_3d) \<noteq> 2 \<and>
   outcome (set_global_q ex_solver ex_state_3d ex_ghosted_1d) = Raised NotImplementedError \<and>
   post (set_global_q ex_solver ex_state_3d ex_ghosted_1d) = ex_state_3d"
proof -
  have h1: "ndim (grid ex_state_3d) \<noteq> 1" and h2: "ndim (grid ex_state_3d) \<noteq> 2"
    by (simp_all add: ex_state_3d_def)
  from set_global_q_raise_keeps_state [OF h1 h2, of ex_solver ex_ghosted_1d] h1 h2
  show ?thesis by simp
qed

end
